theory Spec2Isabelle
  imports Main
begin

section \<open>JavaScript values\<close>

text \<open>
  The client is JavaScript: what arrives on the live connection, what the request
  surface returns and what the components keep in their state are JavaScript values.
  Numbers are the integer-valued ones (identifiers and queue counts) and what adding
  them gives: \<open>JNum n\<close> is the number that the literal \<open>n\<close> denotes, that is the
  double nearest to \<open>n\<close> (\<open>n\<close> itself below \<open>2^53\<close>), \<open>JInf\<close> is \<open>Infinity\<close>
  (\<open>True\<close>) or \<open>-Infinity\<close>, \<open>JNaN\<close> is \<open>NaN\<close>; zero has one sign. \<open>JObj\<close> is
  an object as \<open>JSON.parse\<close> builds it: its own data properties in the order
  \<open>Object.keys\<close> lists them, each key once.
\<close>

datatype jsval =
    Undefined
  | Null
  | JBool bool
  | JNum int
  | JInf bool
  | JNaN
  | JStr string
  | JArr "jsval list"
  | JObj "(string \<times> jsval) list"

datatype js_error = TypeError | SyntaxError | RequestFailed

text \<open>ToBoolean, as \<open>!v\<close>, \<open>v && w\<close>, \<open>v || w\<close> and \<open>if (v)\<close> apply it.\<close>

fun truthy :: "jsval \<Rightarrow> bool" where
  "truthy Undefined = False"
| "truthy Null = False"
| "truthy (JBool b) = b"
| "truthy (JNum n) = (n \<noteq> 0)"
| "truthy (JInf s) = True"
| "truthy JNaN = False"
| "truthy (JStr s) = (s \<noteq> [])"
| "truthy (JArr xs) = True"
| "truthy (JObj kvs) = True"

text \<open>\<open>v || w\<close> and \<open>v && w\<close> on values.\<close>

definition js_or :: "jsval \<Rightarrow> jsval \<Rightarrow> jsval" where
  "js_or v w = (if truthy v then v else w)"

definition js_and :: "jsval \<Rightarrow> jsval \<Rightarrow> jsval" where
  "js_and v w = (if truthy v then w else v)"

text \<open>
  \<open>v.k\<close> for the keys the client reads (\<open>type\<close>, \<open>conversation_id\<close>, \<open>message\<close>,
  \<open>id\<close>, \<open>queue_sizes\<close>, \<open>messages\<close>, ...), none of which is inherited from a
  prototype: a TypeError on \<open>undefined\<close> and \<open>null\<close>, the own property of an object,
  \<open>undefined\<close> otherwise. \<open>v?.k\<close> is \<open>undefined\<close> where \<open>v.k\<close> throws.
\<close>

fun get_prop :: "jsval \<Rightarrow> string \<Rightarrow> js_error + jsval" where
  "get_prop Undefined k = Inl TypeError"
| "get_prop Null k = Inl TypeError"
| "get_prop (JObj kvs) k = Inr (case map_of kvs k of None \<Rightarrow> Undefined | Some v \<Rightarrow> v)"
| "get_prop v k = Inr Undefined"

fun opt_prop :: "jsval \<Rightarrow> string \<Rightarrow> jsval" where
  "opt_prop (JObj kvs) k = (case map_of kvs k of None \<Rightarrow> Undefined | Some v \<Rightarrow> v)"
| "opt_prop v k = Undefined"

subsection \<open>Numbers\<close>

text \<open>The decimal digits of a natural number and of an integer.\<close>

definition digit_char :: "nat \<Rightarrow> char" where
  "digit_char d = char_of (48 + d)"

function show_nat :: "nat \<Rightarrow> string" where
  "show_nat n = (if n < 10 then [digit_char n] else show_nat (n div 10) @ [digit_char (n mod 10)])"
  by pat_completeness auto
termination
  by (relation "measure id") auto

definition show_int :: "int \<Rightarrow> string" where
  "show_int i = (if i < 0 then CHR ''-'' # show_nat (nat (- i)) else show_nat (nat i))"

text \<open>The number of digits of \<open>n\<close> in base \<open>b\<close>.\<close>

function ndigits :: "nat \<Rightarrow> nat \<Rightarrow> nat" where
  "ndigits b n = (if n = 0 \<or> b < 2 then 0 else Suc (ndigits b (n div b)))"
  by pat_completeness auto
termination
  by (relation "measure snd") auto

text \<open>
  The double nearest to a natural number, as a natural number: 53 significant bits,
  a tie going to the even significand. A result of more than 1024 bits (\<open>2^1024\<close> or
  more) is an overflow.
\<close>

definition round53 :: "nat \<Rightarrow> nat" where
  "round53 n =
     (let l = ndigits 2 n
      in if l \<le> 53 then n
         else let u = 2 ^ (l - 53); q = n div u; r = n mod u
              in if 2 * r < u \<or> (2 * r = u \<and> even q) then q * u else (q + 1) * u)"

definition overflows :: "nat \<Rightarrow> bool" where
  "overflows r \<longleftrightarrow> 1024 < ndigits 2 r"

text \<open>The value \<open>JNum i\<close> stands for, written with the number it is.\<close>

definition norm_num :: "int \<Rightarrow> jsval" where
  "norm_num i =
     (let r = round53 (nat \<bar>i\<bar>)
      in if overflows r then JInf (0 < i)
         else JNum (if i < 0 then - int r else int r))"

text \<open>
  \<open>a === b\<close>: primitives by type and value, \<open>NaN\<close> equal to nothing; two objects or
  arrays only when they are the same reference, which values built by separate parses
  never are.
\<close>

fun strict_eq :: "jsval \<Rightarrow> jsval \<Rightarrow> bool" where
  "strict_eq Undefined Undefined = True"
| "strict_eq Null Null = True"
| "strict_eq (JBool a) (JBool b) = (a = b)"
| "strict_eq (JNum a) (JNum b) = (norm_num a = norm_num b)"
| "strict_eq (JNum a) (JInf t) = (norm_num a = JInf t)"
| "strict_eq (JInf s) (JNum b) = (JInf s = norm_num b)"
| "strict_eq (JInf s) (JInf t) = (s = t)"
| "strict_eq (JStr a) (JStr b) = (a = b)"
| "strict_eq a b = False"

subsection \<open>Number and string conversion\<close>

text \<open>
  \<open>Number::toString\<close> of a double that is a positive integer \<open>x\<close>: the fewest
  significant digits that still denote \<open>x\<close>, the nearest to \<open>x\<close> where several do
  (the even one at a tie). \<open>shortest x j\<close> tries the multiples of \<open>10^(j+1)\<close> next to
  \<open>x\<close>, then of \<open>10^j\<close>, down to \<open>x\<close> itself, and returns the value the digits
  denote. Up to 21 digits are written out; beyond that the form is \<open>d.ddde+n\<close>.
\<close>

fun shortest :: "nat \<Rightarrow> nat \<Rightarrow> nat" where
  "shortest x 0 = x"
| "shortest x (Suc j) =
     (let p = 10 ^ Suc j; s = x div p; v1 = s * p; v2 = (s + 1) * p;
          ok1 = (s \<noteq> 0 \<and> round53 v1 = x); ok2 = (round53 v2 = x)
      in if ok1 \<and> ok2
         then (if x - v1 < v2 - x \<or> (x - v1 = v2 - x \<and> even s) then v1 else v2)
         else if ok1 then v1
         else if ok2 then v2
         else shortest x j)"

definition strip_zeros :: "string \<Rightarrow> string" where
  "strip_zeros ds = rev (dropWhile (\<lambda>c. c = CHR ''0'') (rev ds))"

definition finite_string :: "nat \<Rightarrow> string" where
  "finite_string x =
     (if x = 0 then ''0''
      else let v = shortest x (ndigits 10 x - 1); n = ndigits 10 v
           in if n \<le> 21 then show_nat v
              else (case strip_zeros (show_nat v) of
                      [] \<Rightarrow> []
                    | d # ds \<Rightarrow>
                        d # (if ds = [] then [] else CHR ''.'' # ds) @ ''e+'' @ show_nat (n - 1)))"

text \<open>\<open>String(n)\<close> for the number \<open>JNum i\<close>.\<close>

definition number_string :: "int \<Rightarrow> string" where
  "number_string i =
     (let r = round53 (nat \<bar>i\<bar>)
      in (if i < 0 then ''-'' else [])
           @ (if overflows r then ''Infinity'' else finite_string r))"

fun intercalate :: "string \<Rightarrow> string list \<Rightarrow> string" where
  "intercalate sep [] = []"
| "intercalate sep [x] = x"
| "intercalate sep (x # y # ys) = x @ sep @ intercalate sep (y # ys)"

text \<open>
  \<open>String(v)\<close>, which a template literal \<open>`${v}`\<close> applies as well. An array joins
  its elements with a comma, \<open>undefined\<close> and \<open>null\<close> elements as the empty string.
\<close>

fun js_String :: "jsval \<Rightarrow> string" where
  "js_String Undefined = ''undefined''"
| "js_String Null = ''null''"
| "js_String (JBool b) = (if b then ''true'' else ''false'')"
| "js_String (JNum n) = number_string n"
| "js_String (JInf s) = (if s then ''Infinity'' else ''-Infinity'')"
| "js_String JNaN = ''NaN''"
| "js_String (JStr s) = s"
| "js_String (JArr xs) =
     intercalate '','' (map (\<lambda>x. if x = Undefined \<or> x = Null then [] else js_String x) xs)"
| "js_String (JObj kvs) = ''[object Object]''"

subsection \<open>JSON.stringify\<close>

definition hex_char :: "nat \<Rightarrow> char" where
  "hex_char d = (if d < 10 then char_of (48 + d) else char_of (87 + d))"

definition json_escape :: "char \<Rightarrow> string" where
  "json_escape c =
     (if c = CHR 0x22 then [CHR 0x5C, CHR 0x22]
      else if c = CHR 0x5C then [CHR 0x5C, CHR 0x5C]
      else if c = CHR 0x08 then [CHR 0x5C, CHR ''b'']
      else if c = CHR 0x0C then [CHR 0x5C, CHR ''f'']
      else if c = CHR 0x0A then [CHR 0x5C, CHR ''n'']
      else if c = CHR 0x0D then [CHR 0x5C, CHR ''r'']
      else if c = CHR 0x09 then [CHR 0x5C, CHR ''t'']
      else if (of_char c :: nat) < 32
        then [CHR 0x5C, CHR ''u'', CHR ''0'', CHR ''0'',
              hex_char (of_char c div 16), hex_char (of_char c mod 16)]
      else [c])"

definition json_quote :: "string \<Rightarrow> string" where
  "json_quote s = CHR 0x22 # concat (map json_escape s) @ [CHR 0x22]"

text \<open>
  \<open>JSON.stringify(v)\<close>: \<open>None\<close> is the result \<open>undefined\<close>. An \<open>undefined\<close> array
  element is written \<open>null\<close>; an object's property whose value is \<open>undefined\<close> is
  left out; a number that is not finite is written \<open>null\<close>.
\<close>

fun stringify :: "jsval \<Rightarrow> string option" where
  "stringify Undefined = None"
| "stringify Null = Some ''null''"
| "stringify (JBool b) = Some (if b then ''true'' else ''false'')"
| "stringify (JNum n) =
     Some (if overflows (round53 (nat \<bar>n\<bar>)) then ''null'' else number_string n)"
| "stringify (JInf s) = Some ''null''"
| "stringify JNaN = Some ''null''"
| "stringify (JStr s) = Some (json_quote s)"
| "stringify (JArr xs) =
     Some (''['' @ intercalate '','' (map (\<lambda>x. case stringify x of None \<Rightarrow> ''null'' | Some s \<Rightarrow> s) xs) @ '']'')"
| "stringify (JObj kvs) =
     Some (''{'' @ intercalate '',''
        (concat (map (\<lambda>kv. case stringify (snd kv) of None \<Rightarrow> []
                              | Some s \<Rightarrow> [json_quote (fst kv) @ '':'' @ s]) kvs)) @ ''}'')"

subsection \<open>Addition and Object.values\<close>

text \<open>
  \<open>a + b\<close>. Neither operand a string, an array or an object: the sum of the two as
  numbers (\<open>true\<close> is 1, \<open>false\<close> and \<open>null\<close> are 0, \<open>undefined\<close> is \<open>NaN\<close>),
  rounded to the nearest double. Otherwise the concatenation of the operands' strings.
  \<open>number_of\<close> is the operand as a number, \<open>None\<close> where it is none of these.
\<close>

fun number_of :: "jsval \<Rightarrow> jsval option" where
  "number_of (JNum n) = Some (norm_num n)"
| "number_of (JInf s) = Some (JInf s)"
| "number_of JNaN = Some JNaN"
| "number_of (JBool b) = Some (JNum (if b then 1 else 0))"
| "number_of Null = Some (JNum 0)"
| "number_of Undefined = Some JNaN"
| "number_of (JStr s) = None"
| "number_of (JArr xs) = None"
| "number_of (JObj kvs) = None"

fun num_add :: "jsval \<Rightarrow> jsval \<Rightarrow> jsval" where
  "num_add (JNum m) (JNum n) = norm_num (m + n)"
| "num_add (JInf s) (JInf t) = (if s = t then JInf s else JNaN)"
| "num_add (JInf s) (JNum n) = JInf s"
| "num_add (JNum m) (JInf t) = JInf t"
| "num_add a b = JNaN"

definition js_add :: "jsval \<Rightarrow> jsval \<Rightarrow> jsval" where
  "js_add a b =
     (case (number_of a, number_of b) of
        (Some x, Some y) \<Rightarrow> num_add x y
      | _ \<Rightarrow> JStr (js_String a @ js_String b))"

text \<open>\<open>Object.values(v)\<close>; it throws on \<open>undefined\<close> and \<open>null\<close>.\<close>

fun object_values :: "jsval \<Rightarrow> js_error + jsval list" where
  "object_values Undefined = Inl TypeError"
| "object_values Null = Inl TypeError"
| "object_values (JObj kvs) = Inr (map snd kvs)"
| "object_values (JArr xs) = Inr xs"
| "object_values (JStr s) = Inr (map (\<lambda>c. JStr [c]) s)"
| "object_values v = Inr []"

section \<open>The connection hook: useWebSocket\<close>

text \<open>
  One mount of \<open>useWebSocket(agentId, sector, onMessage)\<close>. The hook's refs and state,
  the sockets it has created and the browser's pending timers are one record; every
  handler of the source is a function on it. A socket is named by its position in
  \<open>sockets\<close> (the closure variable \<open>ws\<close> of the handlers), a timer by the handle
  that \<open>setTimeout\<close>/\<open>setInterval\<close> returned, which is greater than zero.
\<close>

datatype ready_state = CONNECTING | OPEN | CLOSING | CLOSED

record websocket =
  ws_url :: string
  readyState :: ready_state
  pingInterval :: "nat option"
  sent :: "string list"
  closes :: "(int \<times> string) list"

datatype callback = Reconnect | Ping nat

datatype timer_kind = Timeout | Interval

record timer =
  handle :: nat
  kind :: timer_kind
  delay :: nat
  callback :: callback

record props =
  location_protocol :: string
  location_hostname :: string
  agentId :: jsval
  sector :: jsval
  onMessage_given :: bool

record hook =
  wsRef :: "nat option"
  reconnectTimeoutRef :: "nat option"
  isConnected :: bool
  lastMessage :: jsval
  sockets :: "websocket list"
  timers :: "timer list"
  next_handle :: nat
  attempts :: "string list"
  delivered :: "jsval list"

definition init_hook :: hook where
  "init_hook = \<lparr>wsRef = None, reconnectTimeoutRef = None, isConnected = False,
     lastMessage = Null, sockets = [], timers = [], next_handle = 0, attempts = [],
     delivered = []\<rparr>"

definition new_socket :: "string \<Rightarrow> websocket" where
  "new_socket u = \<lparr>ws_url = u, readyState = CONNECTING, pingInterval = None, sent = [],
     closes = []\<rparr>"

definition upd_socket :: "nat \<Rightarrow> (websocket \<Rightarrow> websocket) \<Rightarrow> hook \<Rightarrow> hook" where
  "upd_socket sid f h =
     (if sid < length (sockets h) then h\<lparr>sockets := (sockets h)[sid := f (sockets h ! sid)]\<rparr>
      else h)"

text \<open>\<open>setTimeout\<close> and \<open>setInterval\<close>: a fresh handle, the timer pending.\<close>

definition set_timer :: "timer_kind \<Rightarrow> callback \<Rightarrow> nat \<Rightarrow> hook \<Rightarrow> nat \<times> hook" where
  "set_timer k cb d h =
     (Suc (next_handle h),
      h\<lparr>timers := timers h @ [\<lparr>handle = Suc (next_handle h), kind = k, delay = d, callback = cb\<rparr>],
        next_handle := Suc (next_handle h)\<rparr>)"

text \<open>\<open>clearTimeout\<close> and \<open>clearInterval\<close> (one handle space).\<close>

definition clear_timer :: "nat \<Rightarrow> hook \<Rightarrow> hook" where
  "clear_timer t h = h\<lparr>timers := filter (\<lambda>x. handle x \<noteq> t) (timers h)\<rparr>"

text \<open>\<open>if (r) clearTimeout(r)\<close>: nothing for \<open>undefined\<close>, \<open>null\<close> and \<open>0\<close>.\<close>

definition clear_if_set :: "nat option \<Rightarrow> hook \<Rightarrow> hook" where
  "clear_if_set r h = (case r of None \<Rightarrow> h | Some t \<Rightarrow> if t \<noteq> 0 then clear_timer t h else h)"

definition wsUrl :: "props \<Rightarrow> string" where
  "wsUrl p =
     (let wsProtocol = (if location_protocol p = ''https:'' then ''wss:'' else ''ws:'');
          wsHost = location_hostname p;
          wsPort = ''8002''
      in wsProtocol @ ''//'' @ wsHost @ '':'' @ wsPort @ ''/ws/'' @ js_String (agentId p)
           @ ''/'' @ js_String (sector p))"

text \<open>
  \<open>connect\<close>. \<open>throws\<close> is whether \<open>new WebSocket(wsUrl)\<close> throws, which the
  \<open>try\<close>/\<open>catch\<close> around it swallows; \<open>attempts\<close> records every constructor call.
\<close>

definition connect :: "props \<Rightarrow> bool \<Rightarrow> hook \<Rightarrow> hook" where
  "connect p throws h =
     (if \<not> truthy (agentId p) \<or> \<not> truthy (sector p) then h
      else let h1 = h\<lparr>attempts := attempts h @ [wsUrl p]\<rparr> in
        if throws then h1
        else h1\<lparr>sockets := sockets h1 @ [new_socket (wsUrl p)],
                wsRef := Some (length (sockets h1))\<rparr>)"

text \<open>\<open>ws.onopen\<close>: the heartbeat timer is stored on the socket as \<open>_pingInterval\<close>.\<close>

definition onopen :: "nat \<Rightarrow> hook \<Rightarrow> hook" where
  "onopen sid h =
     (let (t, h1) = set_timer Interval (Ping sid) 30000 (h\<lparr>isConnected := True\<rparr>)
      in upd_socket sid (\<lambda>s. s\<lparr>pingInterval := Some t\<rparr>) h1)"

text \<open>\<open>ws.send(s)\<close>.\<close>

definition ws_send :: "nat \<Rightarrow> string \<Rightarrow> hook \<Rightarrow> hook" where
  "ws_send sid s h = upd_socket sid (\<lambda>w. w\<lparr>sent := sent w @ [s]\<rparr>) h"

definition send_json :: "nat \<Rightarrow> jsval \<Rightarrow> hook \<Rightarrow> hook" where
  "send_json sid v h =
     ws_send sid (case stringify v of None \<Rightarrow> ''undefined'' | Some s \<Rightarrow> s) h"

text \<open>The heartbeat callback of \<open>setInterval\<close>.\<close>

definition ping_tick :: "nat \<Rightarrow> hook \<Rightarrow> hook" where
  "ping_tick sid h =
     (if sid < length (sockets h) \<and> readyState (sockets h ! sid) = OPEN
      then send_json sid (JObj [(''type'', JStr ''ping'')]) h
      else h)"

text \<open>
  \<open>ws.onmessage\<close>. \<open>parsed\<close> is the outcome of \<open>JSON.parse(event.data)\<close>; a throw is
  caught and logged. \<open>delivered\<close> records the calls of \<open>onMessage\<close>.
\<close>

definition onmessage :: "props \<Rightarrow> js_error + jsval \<Rightarrow> hook \<Rightarrow> hook" where
  "onmessage p parsed h =
     (case parsed of
        Inl e \<Rightarrow> h
      | Inr data \<Rightarrow>
          let h1 = h\<lparr>lastMessage := data\<rparr>
          in if onMessage_given p then h1\<lparr>delivered := delivered h1 @ [data]\<rparr> else h1)"

text \<open>\<open>if (ws._pingInterval) clearInterval(ws._pingInterval)\<close>.\<close>

definition clear_ping :: "nat \<Rightarrow> hook \<Rightarrow> hook" where
  "clear_ping sid h =
     (if sid < length (sockets h) then clear_if_set (pingInterval (sockets h ! sid)) h else h)"

text \<open>\<open>ws.onclose\<close>, with the close event's code.\<close>

definition onclose :: "nat \<Rightarrow> int \<Rightarrow> hook \<Rightarrow> hook" where
  "onclose sid code h =
     (let h1 = clear_ping sid (h\<lparr>isConnected := False\<rparr>)
      in if code \<noteq> 1000
         then (let (t, h2) = set_timer Timeout Reconnect 3000 h1
               in h2\<lparr>reconnectTimeoutRef := Some t\<rparr>)
         else h1)"

text \<open>\<open>ws.onerror\<close> only logs, so it is no step of the model.\<close>

text \<open>\<open>ws.close(code, reason)\<close>: the call is recorded; an open socket starts closing.\<close>

definition ws_close :: "nat \<Rightarrow> int \<Rightarrow> string \<Rightarrow> hook \<Rightarrow> hook" where
  "ws_close sid code reason h =
     upd_socket sid (\<lambda>w. w\<lparr>closes := closes w @ [(code, reason)],
        readyState := (if readyState w = CLOSED then CLOSED else CLOSING)\<rparr>) h"

text \<open>The effect's cleanup, run at teardown.\<close>

definition cleanup :: "hook \<Rightarrow> hook" where
  "cleanup h =
     (let h1 = clear_if_set (reconnectTimeoutRef h) h
      in case wsRef h1 of
           None \<Rightarrow> h1
         | Some sid \<Rightarrow> ws_close sid 1000 ''Component unmounting'' (clear_ping sid h1))"

text \<open>\<open>sendMessage\<close>, the function the hook returns.\<close>

definition sendMessage :: "jsval \<Rightarrow> hook \<Rightarrow> hook" where
  "sendMessage data h =
     (case wsRef h of
        None \<Rightarrow> h
      | Some sid \<Rightarrow>
          if sid < length (sockets h) \<and> readyState (sockets h ! sid) = OPEN
          then send_json sid data h else h)"

subsection \<open>The browser's side\<close>

text \<open>
  The browser changes a socket's \<open>readyState\<close> and then dispatches the event; it runs
  a pending timer's callback, a timeout once. The code of a close event is the
  browser's: 1000 after a closing handshake that completed, 1006 when the connection
  was lost or never established, which is also how \<open>close\<close> on a socket that is still
  \<open>CONNECTING\<close> ends, whatever code it was called with.
\<close>

definition socket_open :: "nat \<Rightarrow> hook \<Rightarrow> hook" where
  "socket_open sid h = onopen sid (upd_socket sid (\<lambda>w. w\<lparr>readyState := OPEN\<rparr>) h)"

definition socket_close :: "nat \<Rightarrow> int \<Rightarrow> hook \<Rightarrow> hook" where
  "socket_close sid code h = onclose sid code (upd_socket sid (\<lambda>w. w\<lparr>readyState := CLOSED\<rparr>) h)"

definition fire :: "props \<Rightarrow> bool \<Rightarrow> timer \<Rightarrow> hook \<Rightarrow> hook" where
  "fire p throws t h =
     (let h1 = (if kind t = Timeout then clear_timer (handle t) h else h)
      in case callback t of
           Reconnect \<Rightarrow> connect p throws h1
         | Ping sid \<Rightarrow> ping_tick sid h1)"

text \<open>
  The states of one mount: the effect calls \<open>connect\<close>; then sockets open, deliver
  messages and close, timers fire, the component sends, and the cleanup runs, in any
  order the browser allows.
\<close>

inductive reachable :: "props \<Rightarrow> hook \<Rightarrow> bool" for p :: props where
  r_mount: "reachable p (connect p throws init_hook)"
| r_open: "reachable p h \<Longrightarrow> sid < length (sockets h) \<Longrightarrow>
     readyState (sockets h ! sid) = CONNECTING \<Longrightarrow> reachable p (socket_open sid h)"
| r_message: "reachable p h \<Longrightarrow> sid < length (sockets h) \<Longrightarrow>
     readyState (sockets h ! sid) \<in> {OPEN, CLOSING} \<Longrightarrow> reachable p (onmessage p parsed h)"
| r_close: "reachable p h \<Longrightarrow> sid < length (sockets h) \<Longrightarrow>
     readyState (sockets h ! sid) \<noteq> CLOSED \<Longrightarrow> reachable p (socket_close sid code h)"
| r_timer: "reachable p h \<Longrightarrow> t \<in> set (timers h) \<Longrightarrow> reachable p (fire p throws t h)"
| r_send: "reachable p h \<Longrightarrow> reachable p (sendMessage data h)"
| r_unmount: "reachable p h \<Longrightarrow> reachable p (cleanup h)"

subsection \<open>Invariants of the hook's states\<close>

text \<open>
  Every pending timer has a handle that was handed out and is not zero; a reconnect
  timer is a timeout set by some socket's close handler; a heartbeat timer belongs to a
  socket that has opened and that holds its handle.
\<close>

definition timers_ok :: "hook \<Rightarrow> bool" where
  "timers_ok h \<longleftrightarrow>
     (\<forall>t\<in>set (timers h). handle t \<noteq> 0 \<and> handle t \<le> next_handle h \<and>
        (callback t = Reconnect \<longrightarrow> kind t = Timeout \<and> sockets h \<noteq> []) \<and>
        (\<forall>sid. callback t = Ping sid \<longrightarrow>
           sid < length (sockets h) \<and> pingInterval (sockets h ! sid) = Some (handle t) \<and>
           readyState (sockets h ! sid) \<noteq> CONNECTING))"

text \<open>At most one thing is in flight: a socket that has not closed, or a pending reconnect.\<close>

definition one_live :: "hook \<Rightarrow> bool" where
  "one_live h \<longleftrightarrow>
     length (filter (\<lambda>w. readyState w \<noteq> CLOSED) (sockets h))
       + length (filter (\<lambda>t. callback t = Reconnect) (timers h)) \<le> 1"

text \<open>The pending reconnect is the one \<open>reconnectTimeoutRef\<close> holds.\<close>

definition reconnect_held :: "hook \<Rightarrow> bool" where
  "reconnect_held h \<longleftrightarrow>
     (\<forall>t\<in>set (timers h). callback t = Reconnect \<longrightarrow> reconnectTimeoutRef h = Some (handle t))"

text \<open>
  Timer handles are not reused; a heartbeat timer is an interval of 30000 ms; every open
  socket has one pending; the handle a socket holds names no timer but its heartbeat,
  and the handle \<open>reconnectTimeoutRef\<close> holds none but a reconnect.
\<close>

definition heartbeat_ok :: "hook \<Rightarrow> bool" where
  "heartbeat_ok h \<longleftrightarrow>
     distinct (map handle (timers h)) \<and>
     (\<forall>t\<in>set (timers h). \<forall>sid. callback t = Ping sid \<longrightarrow> kind t = Interval \<and> delay t = 30000) \<and>
     (\<forall>sid<length (sockets h). readyState (sockets h ! sid) = OPEN \<longrightarrow>
        (\<exists>t\<in>set (timers h). callback t = Ping sid)) \<and>
     (\<forall>sid<length (sockets h). \<forall>q. pingInterval (sockets h ! sid) = Some q \<longrightarrow>
        q \<le> next_handle h \<and> (\<forall>t\<in>set (timers h). handle t = q \<longrightarrow> callback t = Ping sid)) \<and>
     (\<forall>r. reconnectTimeoutRef h = Some r \<longrightarrow>
        r \<le> next_handle h \<and> (\<forall>t\<in>set (timers h). handle t = r \<longrightarrow> callback t = Reconnect))"

abbreviation live :: "hook \<Rightarrow> nat" where
  "live h \<equiv> length (filter (\<lambda>w. readyState w \<noteq> CLOSED) (sockets h))"

abbreviation pending :: "hook \<Rightarrow> nat" where
  "pending h \<equiv> length (filter (\<lambda>t. callback t = Reconnect) (timers h))"

subsection \<open>A concrete run\<close>

text \<open>Agent 7 of sector \<open>comercial\<close> on an https page, the first socket open.\<close>

definition demo_props :: props where
  "demo_props = \<lparr>location_protocol = ''https:'', location_hostname = ''crm.example'',
     agentId = JNum 7, sector = JStr ''comercial'', onMessage_given = True\<rparr>"

definition demo_hook :: hook where
  "demo_hook = socket_open 0 (connect demo_props False init_hook)"

text \<open>The same run after an abnormal close (code 1006), the reconnect and the new socket's opening.\<close>

definition demo_dropped :: hook where
  "demo_dropped = socket_close 0 1006 demo_hook"

definition demo_timer :: timer where
  "demo_timer = \<lparr>handle = 2, kind = Timeout, delay = 3000, callback = Reconnect\<rparr>"

definition demo_reconnected :: hook where
  "demo_reconnected = socket_open 1 (fire demo_props False demo_timer demo_dropped)"

text \<open>
  Another run: the component is torn down while the first socket is still
  \<open>CONNECTING\<close>, and the browser then reports that socket's close with code 1006.
\<close>

definition demo_connecting :: hook where
  "demo_connecting = connect demo_props False init_hook"

definition demo_unmounted :: hook where
  "demo_unmounted = cleanup demo_connecting"

definition demo_torn :: hook where
  "demo_torn = socket_close 0 1006 demo_unmounted"

definition torn_timer :: timer where
  "torn_timer = \<lparr>handle = 1, kind = Timeout, delay = 3000, callback = Reconnect\<rparr>"

section \<open>The request surface: services/api\<close>

text \<open>
  The axios instance, seen from the functions that use it. \<open>localStorage\<close> is a map
  from keys to strings; the server behind the instance's \<open>baseURL\<close> answers a request
  with a response or fails (a network error or a status outside 2xx rejects the
  promise). An \<open>async\<close> function's promise is a sum: \<open>Inl\<close> rejected, \<open>Inr\<close>
  resolved.
\<close>

type_synonym storage = "string \<Rightarrow> string option"

datatype http_method = GET | POST | PUT

record request =
  http_method :: http_method
  req_url :: string
  req_params :: jsval
  req_body :: jsval
  req_headers :: "string \<Rightarrow> string option"

record response =
  resp_status :: int
  resp_data :: jsval

type_synonym server = "request \<Rightarrow> js_error + response"

text \<open>The request interceptor: the stored token, when there is one, as a bearer header.\<close>

definition request_interceptor :: "storage \<Rightarrow> request \<Rightarrow> request" where
  "request_interceptor ls config =
     (case ls ''token'' of
        None \<Rightarrow> config
      | Some token \<Rightarrow>
          if token \<noteq> []
          then config\<lparr>req_headers := (req_headers config)(''Authorization'' \<mapsto> ''Bearer '' @ token)\<rparr>
          else config)"

text \<open>The response interceptor logs an error and rejects with it again.\<close>

definition response_interceptor :: "js_error + response \<Rightarrow> js_error + response" where
  "response_interceptor r = (case r of Inr resp \<Rightarrow> Inr resp | Inl e \<Rightarrow> Inl e)"

text \<open>
  The request the server receives: the instance's default header, the call's own
  headers over it, then the request interceptor.
\<close>

definition prepare ::
  "storage \<Rightarrow> http_method \<Rightarrow> string \<Rightarrow> jsval \<Rightarrow> jsval \<Rightarrow> (string \<Rightarrow> string option) \<Rightarrow> request"
where
  "prepare ls m u ps b hs =
     request_interceptor ls
       \<lparr>http_method = m, req_url = u, req_params = ps, req_body = b,
        req_headers = [''Content-Type'' \<mapsto> ''application/json''] ++ hs\<rparr>"

definition api_get :: "storage \<Rightarrow> server \<Rightarrow> string \<Rightarrow> jsval \<Rightarrow> js_error + response" where
  "api_get ls srv u ps = response_interceptor (srv (prepare ls GET u ps Undefined Map.empty))"

definition api_post ::
  "storage \<Rightarrow> server \<Rightarrow> string \<Rightarrow> jsval \<Rightarrow> (string \<Rightarrow> string option) \<Rightarrow> js_error + response"
where
  "api_post ls srv u b hs = response_interceptor (srv (prepare ls POST u Undefined b hs))"

definition api_put :: "storage \<Rightarrow> server \<Rightarrow> string \<Rightarrow> js_error + response" where
  "api_put ls srv u = response_interceptor (srv (prepare ls PUT u Undefined Undefined Map.empty))"

text \<open>\<open>const response = await ...; return response.data\<close>: a rejection propagates.\<close>

definition data_of :: "js_error + response \<Rightarrow> js_error + jsval" where
  "data_of r = (case r of Inl e \<Rightarrow> Inl e | Inr resp \<Rightarrow> Inr (resp_data resp))"

text \<open>The same inside \<open>try\<close>, with a \<open>catch\<close> that logs and returns a default.\<close>

definition data_or :: "jsval \<Rightarrow> js_error + response \<Rightarrow> js_error + jsval" where
  "data_or dflt r = (case r of Inl e \<Rightarrow> Inr dflt | Inr resp \<Rightarrow> Inr (resp_data resp))"

subsection \<open>authService\<close>

definition auth_login :: "storage \<Rightarrow> server \<Rightarrow> jsval \<Rightarrow> jsval \<Rightarrow> js_error + jsval" where
  "auth_login ls srv email password =
     data_of (api_post ls srv ''/api/auth/login''
       (JObj [(''username'', email), (''password'', password)])
       [''Content-Type'' \<mapsto> ''application/x-www-form-urlencoded''])"

text \<open>
  \<open>logout\<close>: the server is told, a failure of that is caught and ignored, and the two
  entries are removed. The promise resolves with the storage as it is left.
\<close>

definition auth_logout :: "storage \<Rightarrow> server \<Rightarrow> js_error + storage" where
  "auth_logout ls srv =
     (let ls1 = (case api_post ls srv ''/api/auth/logout'' Undefined Map.empty of
                   Inl e \<Rightarrow> ls
                 | Inr resp \<Rightarrow> ls)
      in Inr (ls1(''token'' := None, ''agent'' := None)))"

definition auth_getMe :: "storage \<Rightarrow> server \<Rightarrow> js_error + jsval" where
  "auth_getMe ls srv = data_of (api_get ls srv ''/api/auth/me'' Undefined)"

subsection \<open>conversationsService\<close>

definition conversations_list :: "storage \<Rightarrow> server \<Rightarrow> jsval \<Rightarrow> js_error + jsval" where
  "conversations_list ls srv ps =
     data_of (api_get ls srv ''/api/conversations'' (if ps = Undefined then JObj [] else ps))"

definition conversations_getQueue :: "storage \<Rightarrow> server \<Rightarrow> jsval \<Rightarrow> js_error + jsval" where
  "conversations_getQueue ls srv sec =
     data_of (api_get ls srv ''/api/conversations/queue''
       (if truthy sec then JObj [(''sector'', sec)] else JObj []))"

definition conversations_get :: "storage \<Rightarrow> server \<Rightarrow> jsval \<Rightarrow> js_error + jsval" where
  "conversations_get ls srv cid =
     data_of (api_get ls srv (''/api/conversations/'' @ js_String cid) Undefined)"

definition conversations_accept :: "storage \<Rightarrow> server \<Rightarrow> jsval \<Rightarrow> js_error + jsval" where
  "conversations_accept ls srv cid =
     data_of (api_post ls srv (''/api/conversations/'' @ js_String cid @ ''/accept'')
       Undefined Map.empty)"

definition conversations_resolve :: "storage \<Rightarrow> server \<Rightarrow> jsval \<Rightarrow> js_error + jsval" where
  "conversations_resolve ls srv cid =
     data_of (api_post ls srv (''/api/conversations/'' @ js_String cid @ ''/resolve'')
       Undefined Map.empty)"

definition conversations_close :: "storage \<Rightarrow> server \<Rightarrow> jsval \<Rightarrow> js_error + jsval" where
  "conversations_close ls srv cid =
     data_of (api_post ls srv (''/api/conversations/'' @ js_String cid @ ''/close'')
       Undefined Map.empty)"

definition stats_default :: jsval where
  "stats_default = JObj [(''by_status'', JObj []), (''by_sector'', JObj []), (''queues'', JObj [])]"

definition conversations_getStats :: "storage \<Rightarrow> server \<Rightarrow> js_error + jsval" where
  "conversations_getStats ls srv =
     data_or stats_default (api_get ls srv ''/api/conversations/stats/summary'' Undefined)"

subsection \<open>messagesService\<close>

definition messages_default :: jsval where
  "messages_default = JObj [(''messages'', JArr [])]"

definition messages_getByConversation ::
  "storage \<Rightarrow> server \<Rightarrow> jsval \<Rightarrow> jsval \<Rightarrow> js_error + jsval"
where
  "messages_getByConversation ls srv conversationId ps =
     data_or messages_default
       (api_get ls srv (''/api/messages/conversation/'' @ js_String conversationId)
          (if ps = Undefined then JObj [] else ps))"

definition messages_send :: "storage \<Rightarrow> server \<Rightarrow> jsval \<Rightarrow> jsval \<Rightarrow> js_error + jsval" where
  "messages_send ls srv conversationId content =
     data_of (api_post ls srv ''/api/messages/send''
       (JObj [(''conversation_id'', conversationId), (''content'', content)]) Map.empty)"

definition messages_markAsRead :: "storage \<Rightarrow> server \<Rightarrow> jsval \<Rightarrow> js_error + jsval" where
  "messages_markAsRead ls srv messageId =
     data_of (api_put ls srv (''/api/messages/'' @ js_String messageId @ ''/read''))"

subsection \<open>agentsService\<close>

definition agents_default :: jsval where
  "agents_default = JObj [(''agents'', JArr [])]"

definition agents_list :: "storage \<Rightarrow> server \<Rightarrow> jsval \<Rightarrow> js_error + jsval" where
  "agents_list ls srv sec =
     data_or agents_default
       (api_get ls srv ''/api/agents'' (if truthy sec then JObj [(''sector'', sec)] else JObj []))"

definition agents_getOnline :: "storage \<Rightarrow> server \<Rightarrow> js_error + jsval" where
  "agents_getOnline ls srv = data_or agents_default (api_get ls srv ''/api/agents/online'' Undefined)"

subsection \<open>Concrete storage and servers\<close>

definition demo_storage :: storage where
  "demo_storage = [''token'' \<mapsto> ''abc'', ''agent'' \<mapsto> ''{}'', ''theme'' \<mapsto> ''dark'']"

definition failing_server :: server where
  "failing_server = (\<lambda>r. Inl RequestFailed)"

definition echo_server :: server where
  "echo_server = (\<lambda>r. Inr \<lparr>resp_status = 200, resp_data = JStr (req_url r)\<rparr>)"

section \<open>The Dashboard\<close>

text \<open>
  The component's state that the live events and the loaders touch.
  \<open>selectedConversationRef\<close> is the ref's \<open>current\<close>: \<open>null\<close> or the open
  conversation. \<open>render_error\<close> holds what a state updater threw when React applied
  it. \<open>error_shown\<close> says whether the error banner is set.
\<close>

datatype tab = TabAll | TabQueue | TabMine

record dashboard =
  conversations :: jsval
  selectedConversationRef :: jsval
  messages :: jsval
  queueSizes :: jsval
  error_shown :: bool
  loading :: bool
  render_error :: "js_error option"

definition init_dashboard :: dashboard where
  "init_dashboard = \<lparr>conversations = JArr [], selectedConversationRef = Null,
     messages = JArr [], queueSizes = JObj [], error_shown = False, loading = True,
     render_error = None\<rparr>"

text \<open>
  The Dashboard's call of the hook:
  \<open>useWebSocket(agent?.id, agent?.sector || 'comercial', handleWebSocketMessage)\<close>.
\<close>

definition hook_props :: "string \<Rightarrow> string \<Rightarrow> jsval \<Rightarrow> props" where
  "hook_props protocol hostname agent =
     \<lparr>location_protocol = protocol, location_hostname = hostname,
      agentId = opt_prop agent ''id'',
      sector = js_or (opt_prop agent ''sector'') (JStr ''comercial''),
      onMessage_given = True\<rparr>"

text \<open>What a handler or an effect asks for, beyond the state it sets.\<close>

datatype dash_action = LoadConversations tab | LoadMessages jsval

datatype effect_step = Run dash_action | Every nat dash_action

subsection \<open>loadConversations and loadMessages\<close>

text \<open>\<open>activeTab === 'mine' ? { status: 'in_progress' } : {}\<close>.\<close>

definition list_params :: "tab \<Rightarrow> jsval" where
  "list_params t = (if t = TabMine then JObj [(''status'', JStr ''in_progress'')] else JObj [])"

text \<open>
  \<open>loadConversations\<close> as the render with \<open>activeTab = t\<close> defines it. Whatever the
  \<open>try\<close> block throws sets the error banner.
\<close>

definition loadConversations :: "tab \<Rightarrow> storage \<Rightarrow> server \<Rightarrow> dashboard \<Rightarrow> dashboard" where
  "loadConversations t ls srv d =
     (let d0 = d\<lparr>error_shown := False\<rparr>;
          d1 = (if t = TabQueue
                then (case conversations_getQueue ls srv Undefined of
                        Inl e \<Rightarrow> d0\<lparr>error_shown := True\<rparr>
                      | Inr dat \<Rightarrow>
                          (case get_prop dat ''queue_sizes'' of
                             Inl e \<Rightarrow> d0\<lparr>error_shown := True\<rparr>
                           | Inr qs \<Rightarrow>
                               d0\<lparr>queueSizes := js_or qs (JObj []),
                                  conversations := js_or (opt_prop dat ''queue'') (JArr [])\<rparr>))
                else (case conversations_list ls srv (list_params t) of
                        Inl e \<Rightarrow> d0\<lparr>error_shown := True\<rparr>
                      | Inr dat \<Rightarrow>
                          (case get_prop dat ''conversations'' of
                             Inl e \<Rightarrow> d0\<lparr>error_shown := True\<rparr>
                           | Inr cs \<Rightarrow> d0\<lparr>conversations := js_or cs (JArr [])\<rparr>)))
      in d1\<lparr>loading := False\<rparr>)"

definition loadMessages :: "storage \<Rightarrow> server \<Rightarrow> jsval \<Rightarrow> dashboard \<Rightarrow> dashboard" where
  "loadMessages ls srv conversationId d =
     (case messages_getByConversation ls srv conversationId Undefined of
        Inl e \<Rightarrow> d
      | Inr dat \<Rightarrow>
          (case get_prop dat ''messages'' of
             Inl e \<Rightarrow> d
           | Inr ms \<Rightarrow> d\<lparr>messages := js_or ms (JArr [])\<rparr>))"

text \<open>The request a \<open>loadConversations\<close> makes.\<close>

definition load_request :: "tab \<Rightarrow> http_method \<times> string \<times> jsval" where
  "load_request t =
     (if t = TabQueue then (GET, ''/api/conversations/queue'', JObj [])
      else (GET, ''/api/conversations'', list_params t))"

subsection \<open>The effects that poll\<close>

text \<open>
  \<open>useEffect(() => { loadConversations(); const interval = setInterval(loadConversations,
  10000); ... }, [activeTab])\<close>; and, for an open conversation, the effect that loads
  its messages and the one that polls them.
\<close>

definition conversations_effect :: "tab \<Rightarrow> effect_step list" where
  "conversations_effect t = [Run (LoadConversations t), Every 10000 (LoadConversations t)]"

definition messages_effect :: "jsval \<Rightarrow> effect_step list" where
  "messages_effect selectedConversation =
     (if \<not> truthy selectedConversation then []
      else [Run (LoadMessages (opt_prop selectedConversation ''id'')),
            Every 3000 (LoadMessages (opt_prop selectedConversation ''id''))])"

subsection \<open>handleWebSocketMessage\<close>

text \<open>
  \<open>prev.some(m => m.id === data.message.id)\<close>, left to right, stopping at the first
  match.
\<close>

fun some_same_id :: "jsval list \<Rightarrow> jsval \<Rightarrow> js_error + bool" where
  "some_same_id [] dat = Inr False"
| "some_same_id (m # ms) dat =
     (case get_prop m ''id'' of
        Inl e \<Rightarrow> Inl e
      | Inr a \<Rightarrow>
          (case get_prop dat ''message'' of
             Inl e \<Rightarrow> Inl e
           | Inr msg \<Rightarrow>
               (case get_prop msg ''id'' of
                  Inl e \<Rightarrow> Inl e
                | Inr b \<Rightarrow> if strict_eq a b then Inr True else some_same_id ms dat)))"

text \<open>
  The updater given to \<open>setMessages\<close>. A \<open>prev\<close> that is not an array has no
  \<open>some\<close>.
\<close>

definition add_message :: "jsval \<Rightarrow> jsval \<Rightarrow> js_error + jsval" where
  "add_message dat prev =
     (case prev of
        JArr ms \<Rightarrow>
          (case some_same_id ms dat of
             Inl e \<Rightarrow> Inl e
           | Inr exists \<Rightarrow>
               if exists then Inr prev
               else (case get_prop dat ''message'' of
                       Inl e \<Rightarrow> Inl e
                     | Inr msg \<Rightarrow> Inr (JArr (ms @ [msg]))))
      | _ \<Rightarrow> Inl TypeError)"

definition setMessages :: "(jsval \<Rightarrow> js_error + jsval) \<Rightarrow> dashboard \<Rightarrow> dashboard" where
  "setMessages updater d =
     (case updater (messages d) of
        Inl e \<Rightarrow> d\<lparr>render_error := Some e\<rparr>
      | Inr v \<Rightarrow> d\<lparr>messages := v\<rparr>)"

text \<open>
  The handler is memoised with no dependencies, so the \<open>loadConversations\<close> it calls
  is the first render's, where \<open>activeTab\<close> is \<open>'all'\<close>. Reading \<open>data.type\<close>
  throws when \<open>data\<close> is \<open>null\<close>; where it has not thrown, the later reads of
  \<open>data\<close>'s properties do not throw either.
\<close>

definition handleWebSocketMessage :: "jsval \<Rightarrow> dashboard \<Rightarrow> js_error + dashboard \<times> dash_action list" where
  "handleWebSocketMessage dat d =
     (case get_prop dat ''type'' of
        Inl e \<Rightarrow> Inl e
      | Inr ty \<Rightarrow>
          if strict_eq ty (JStr ''new_message'') then
            (let currentConvId = opt_prop (selectedConversationRef d) ''id'';
                 messageConvId = opt_prop dat ''conversation_id'';
                 d1 = (if truthy currentConvId
                          \<and> js_String currentConvId = js_String messageConvId
                       then setMessages (add_message dat) d else d)
             in Inr (d1, [LoadConversations TabAll]))
          else if strict_eq ty (JStr ''new_conversation'') then Inr (d, [LoadConversations TabAll])
          else if strict_eq ty (JStr ''queue_update'')
            then Inr (d\<lparr>queueSizes := js_or (opt_prop dat ''queue_sizes'') (JObj [])\<rparr>, [])
          else Inr (d, []))"

text \<open>
  The events the hook hands over, in order; what the handler throws is caught by the
  hook's \<open>onmessage\<close>.
\<close>

fun deliver_all :: "jsval list \<Rightarrow> dashboard \<Rightarrow> dashboard \<times> dash_action list" where
  "deliver_all [] d = (d, [])"
| "deliver_all (dat # rest) d =
     (case handleWebSocketMessage dat d of
        Inl e \<Rightarrow> deliver_all rest d
      | Inr (d1, acts) \<Rightarrow> (case deliver_all rest d1 of (d2, later) \<Rightarrow> (d2, acts @ later)))"

subsection \<open>The queue badge\<close>

text \<open>\<open>Object.values(queueSizes).reduce((a, b) => a + b, 0)\<close>.\<close>

definition totalQueue :: "jsval \<Rightarrow> js_error + jsval" where
  "totalQueue qs =
     (case object_values qs of
        Inl e \<Rightarrow> Inl e
      | Inr vs \<Rightarrow> Inr (foldl js_add (JNum 0) vs))"


text \<open>A \<open>{sector: count}\<close> mapping as a value.\<close>

definition sizes_obj :: "(string \<times> int) list \<Rightarrow> jsval" where
  "sizes_obj m = JObj (map (\<lambda>kv. (fst kv, JNum (snd kv))) m)"

subsection \<open>Concrete events\<close>

definition open_zero :: dashboard where
  "open_zero = init_dashboard\<lparr>selectedConversationRef := JObj [(''id'', JNum 0)]\<rparr>"

definition open_five :: dashboard where
  "open_five = init_dashboard\<lparr>selectedConversationRef := JObj [(''id'', JNum 5)],
     messages := JArr [JObj [(''id'', JNum 1), (''content'', JStr ''oi'')]]\<rparr>"

definition message_event :: "jsval \<Rightarrow> int \<Rightarrow> jsval" where
  "message_event cid mid =
     JObj [(''type'', JStr ''new_message''), (''conversation_id'', cid),
           (''message'', JObj [(''id'', JNum mid), (''content'', JStr ''bom dia'')])]"


definition list_server :: "jsval list \<Rightarrow> server" where
  "list_server cs = (\<lambda>r. Inr \<lparr>resp_status = 200, resp_data = JObj [(''conversations'', JArr cs)]\<rparr>)"


section \<open>The dispatcher behind the request surface\<close>

text \<open>
  \<open>conversationsService.accept\<close> and \<open>resolve\<close> post to
  \<open>/api/conversations/{id}/accept\<close> and \<open>.../resolve\<close> and hand back what the server
  answers. The server's code is not part of the client; its conversation state machine
  and claim protocol are taken from the specification (sections 3, 4.1, 4.2, 5 and 7).
\<close>

text \<open>Modelled from the spec: the sectors (glossary), with the Dashboard's names for them.\<close>

datatype dsector = comercial | compras | contas_pagar | contas_receber | rh | geral
  | atendimento_humano

text \<open>Modelled from the spec: a conversation's status (section 3).\<close>

datatype status = bot_handling | waiting_queue | in_progress | resolved | closed

text \<open>Modelled from the spec: the error taxonomy (section 7).\<close>

datatype svc_error = InvalidStateTransition | AlreadyClaimed | PermissionDenied | NotFound

text \<open>Modelled from the spec: the conversation record (section 3), without the lead and the
  timestamps, which no transition reads.
\<close>

record conversation =
  conv_sector :: dsector
  conv_status :: status
  assigned_agent :: "nat option"

text \<open>Modelled from the spec: an agent, as a request identifies it.\<close>

record agent =
  agent_id :: nat
  agent_sector :: dsector

text \<open>Modelled from the spec: the conversation store and the per-sector waiting queues,
  oldest first (sections 3 and 4.2).
\<close>

record dispatcher =
  convs :: "nat \<Rightarrow> conversation option"
  queues :: "dsector \<Rightarrow> nat list"

text \<open>Modelled from the spec: an agent may claim from its own sector's queue, and any agent
  from the escalation sector's (section 4.2, tie-break policy).
\<close>

definition may_claim :: "agent \<Rightarrow> conversation \<Rightarrow> bool" where
  "may_claim a c \<longleftrightarrow> agent_sector a = conv_sector c \<or> conv_sector c = atendimento_humano"

text \<open>Modelled from the spec: \<open>waiting_queue \<rightarrow> in_progress\<close> through
  \<open>dequeue_for_claim\<close> (sections 4.1 and 4.2), one atomic step: the conversation must
  still be queued and waiting; then it leaves the queue and the agent is assigned. A
  conversation that another claim has taken answers \<open>AlreadyClaimed\<close>, an unknown one
  \<open>NotFound\<close>, an agent of another sector \<open>PermissionDenied\<close> (section 9), any
  other state \<open>InvalidStateTransition\<close>. An error leaves the state as it is.
\<close>

definition claim :: "agent \<Rightarrow> nat \<Rightarrow> dispatcher \<Rightarrow> (svc_error + conversation) \<times> dispatcher" where
  "claim a cid st =
     (case convs st cid of
        None \<Rightarrow> (Inl NotFound, st)
      | Some c \<Rightarrow>
          if \<not> may_claim a c then (Inl PermissionDenied, st)
          else if conv_status c = waiting_queue \<and> cid \<in> set (queues st (conv_sector c)) then
            (let c1 = c\<lparr>conv_status := in_progress, assigned_agent := Some (agent_id a)\<rparr>
             in (Inr c1,
                 st\<lparr>convs := (convs st)(cid \<mapsto> c1),
                    queues := (queues st)(conv_sector c := removeAll cid (queues st (conv_sector c)))\<rparr>))
          else if conv_status c = in_progress \<or> conv_status c = waiting_queue
            then (Inl AlreadyClaimed, st)
          else (Inl InvalidStateTransition, st))"

text \<open>Modelled from the spec: \<open>in_progress \<rightarrow> resolved\<close> (section 4.1), for the assigned
  agent only; \<open>assigned_agent\<close> is set exactly while the status is \<open>in_progress\<close>
  (section 3).
\<close>

definition resolve :: "agent \<Rightarrow> nat \<Rightarrow> dispatcher \<Rightarrow> (svc_error + conversation) \<times> dispatcher" where
  "resolve a cid st =
     (case convs st cid of
        None \<Rightarrow> (Inl NotFound, st)
      | Some c \<Rightarrow>
          if conv_status c \<noteq> in_progress then (Inl InvalidStateTransition, st)
          else if assigned_agent c \<noteq> Some (agent_id a) then (Inl PermissionDenied, st)
          else (let c1 = c\<lparr>conv_status := resolved, assigned_agent := None\<rparr>
                in (Inr c1, st\<lparr>convs := (convs st)(cid \<mapsto> c1)\<rparr>)))"

text \<open>Modelled from the spec: concurrent claim attempts on one conversation are serialised
  (sections 4.2 and 5), so a run of them is the attempts one after the other in the
  order the serialisation picked; the results are in that order.
\<close>

fun claim_all :: "agent list \<Rightarrow> nat \<Rightarrow> dispatcher \<Rightarrow> (svc_error + conversation) list \<times> dispatcher" where
  "claim_all [] cid st = ([], st)"
| "claim_all (a # as) cid st =
     (case claim a cid st of
        (r, st1) \<Rightarrow> (case claim_all as cid st1 of (rs, st2) \<Rightarrow> (r # rs, st2)))"

subsection \<open>A concrete queue\<close>

definition demo_conversation :: conversation where
  "demo_conversation = \<lparr>conv_sector = comercial, conv_status = waiting_queue, assigned_agent = None\<rparr>"

definition demo_dispatcher :: dispatcher where
  "demo_dispatcher = \<lparr>convs = [4 \<mapsto> demo_conversation],
     queues = (\<lambda>s. if s = comercial then [4] else [])\<rparr>"

definition agent_a :: agent where
  "agent_a = \<lparr>agent_id = 1, agent_sector = comercial\<rparr>"

definition agent_b :: agent where
  "agent_b = \<lparr>agent_id = 2, agent_sector = comercial\<rparr>"

definition agent_c :: agent where
  "agent_c = \<lparr>agent_id = 3, agent_sector = comercial\<rparr>"

text \<open>An agent of another sector.\<close>

definition agent_d :: agent where
  "agent_d = \<lparr>agent_id = 4, agent_sector = rh\<rparr>"


section \<open>Properties of the numbers\<close>

declare ndigits.simps [simp del] show_nat.simps [simp del]

lemma ndigits_le: "n < b ^ k \<Longrightarrow> ndigits b n \<le> k"
proof (induction k arbitrary: n)
  case 0
  then show ?case by (simp add: ndigits.simps [of b 0])
next
  case (Suc k)
  show ?case
  proof (cases "n = 0 \<or> b < 2")
    case True
    then show ?thesis by (auto simp: ndigits.simps [of b n])
  next
    case False
    then have "n div b < b ^ k"
      using Suc.prems by (simp add: less_mult_imp_div_less mult.commute)
    then have "ndigits b (n div b) \<le> k" by (rule Suc.IH)
    then show ?thesis using False by (simp add: ndigits.simps [of b n])
  qed
qed

lemma ndigits_pos: "2 \<le> b \<Longrightarrow> n \<noteq> 0 \<Longrightarrow> 0 < ndigits b n"
  by (simp add: ndigits.simps [of b n])

lemma ndigits_ge: "2 \<le> b \<Longrightarrow> n \<noteq> 0 \<Longrightarrow> b ^ (ndigits b n - 1) \<le> n"
proof (induction n rule: less_induct)
  case (less n)
  have step: "ndigits b n = Suc (ndigits b (n div b))"
    using less.prems by (simp add: ndigits.simps [of b n])
  show ?case
  proof (cases "n div b = 0")
    case True
    then have "ndigits b (n div b) = 0"
      by (simp add: ndigits.simps [of b 0])
    then show ?thesis
      using step less.prems by simp
  next
    case False
    have "n div b < n"
      using less.prems by simp
    then have ih: "b ^ (ndigits b (n div b) - 1) \<le> n div b"
      using less.IH less.prems(1) False by blast
    have "0 < ndigits b (n div b)"
      using less.prems(1) False by (rule ndigits_pos)
    then have "ndigits b n - 1 = Suc (ndigits b (n div b) - 1)"
      using step by simp
    then have "b ^ (ndigits b n - 1) = b * b ^ (ndigits b (n div b) - 1)"
      by simp
    also have "\<dots> \<le> b * (n div b)"
      using ih by simp
    also have "\<dots> \<le> n"
      by simp
    finally show ?thesis .
  qed
qed

text \<open>The integers below \<open>2^53\<close> are doubles; a larger one rounds to a larger one.\<close>

lemma round53_safe: "n < 2 ^ 53 \<Longrightarrow> round53 n = n"
  using ndigits_le [of n 2 53] by (simp add: round53_def Let_def)

lemma round53_large:
  assumes "2 ^ 53 \<le> n"
  shows "2 ^ 53 \<le> round53 n"
proof (cases "ndigits 2 n \<le> 53")
  case True
  then show ?thesis using assms by (simp add: round53_def)
next
  case False
  define l where "l = ndigits 2 n"
  define u :: nat where "u = 2 ^ (l - 53)"
  have l: "53 < l" using False by (simp add: l_def)
  have n0: "n \<noteq> 0" using assms by auto
  have "(2::nat) ^ (l - 1) \<le> n"
    unfolding l_def using n0 by (intro ndigits_ge) simp_all
  moreover have "(2::nat) ^ (l - 1) = 2 ^ 52 * u"
  proof -
    have "l - 1 = 52 + (l - 53)" using l by simp
    then show ?thesis unfolding u_def by (simp only: power_add)
  qed
  ultimately have "2 ^ 52 * u \<le> n" by simp
  moreover have u0: "0 < u" by (simp add: u_def)
  ultimately have q: "2 ^ 52 \<le> n div u"
    by (simp add: less_eq_div_iff_mult_less_eq)
  have "(2::nat) ^ 53 \<le> 2 ^ 52 * u"
  proof -
    have "(2::nat) ^ 1 \<le> 2 ^ (l - 53)"
      using l by (intro power_increasing) simp_all
    then show ?thesis by (simp add: u_def)
  qed
  also have "\<dots> \<le> (n div u) * u"
    using q by simp
  finally have a: "2 ^ 53 \<le> (n div u) * u" .
  then have b: "2 ^ 53 \<le> (n div u + 1) * u"
    by (simp add: add_increasing2)
  show ?thesis
    using False a b by (simp add: round53_def Let_def l_def [symmetric] u_def [symmetric])
qed

lemma norm_num_safe: "\<bar>i\<bar> < 2 ^ 53 \<Longrightarrow> norm_num i = JNum i"
proof -
  assume a: "\<bar>i\<bar> < 2 ^ 53"
  then have "nat \<bar>i\<bar> < 2 ^ 53"
    by (simp add: nat_less_iff)
  then have r: "round53 (nat \<bar>i\<bar>) = nat \<bar>i\<bar>"
    by (rule round53_safe)
  have "ndigits 2 (nat \<bar>i\<bar>) \<le> 53"
    using \<open>nat \<bar>i\<bar> < 2 ^ 53\<close> by (rule ndigits_le)
  then show ?thesis
    by (simp add: norm_num_def r Let_def overflows_def)
qed

text \<open>Below \<open>2^53\<close> the shortest digits that denote a number are its own.\<close>

lemma shortest_safe: "x < 2 ^ 53 \<Longrightarrow> shortest x j = x"
proof (induction j)
  case 0
  show ?case by simp
next
  case (Suc j)
  define p :: nat where "p = 10 ^ Suc j"
  define s where "s = x div p"
  have p0: "0 < p" by (simp add: p_def)
  have v1: "s * p \<le> x"
    by (simp add: s_def)
  have v2: "x < (s + 1) * p"
    using p0 dividend_less_div_times [of p x] by (simp add: s_def add.commute)
  have r1: "round53 (s * p) = s * p"
    using v1 Suc.prems by (intro round53_safe) simp
  have r2: "round53 ((s + 1) * p) \<noteq> x"
  proof (cases "(s + 1) * p < 2 ^ 53")
    case True
    then have "round53 ((s + 1) * p) = (s + 1) * p" by (rule round53_safe)
    then show ?thesis using v2 by simp
  next
    case False
    then have "2 ^ 53 \<le> round53 ((s + 1) * p)"
      by (intro round53_large) simp
    then show ?thesis using Suc.prems by simp
  qed
  have eq: "shortest x (Suc j) =
     (if (s \<noteq> 0 \<and> round53 (s * p) = x) \<and> round53 ((s + 1) * p) = x
      then (if x - s * p < (s + 1) * p - x \<or> (x - s * p = (s + 1) * p - x \<and> even s)
            then s * p else (s + 1) * p)
      else if s \<noteq> 0 \<and> round53 (s * p) = x then s * p
      else if round53 ((s + 1) * p) = x then (s + 1) * p
      else shortest x j)"
    unfolding shortest.simps Let_def p_def s_def ..
  have "shortest x (Suc j) = (if s \<noteq> 0 \<and> s * p = x then s * p else shortest x j)"
    unfolding eq r1 using r2 by (simp only: simp_thms if_False)
  then show ?case
    using Suc.IH [OF Suc.prems] by simp
qed

lemma show_nat_0: "show_nat 0 = ''0''"
  by code_simp

lemma finite_string_safe: "x < 2 ^ 53 \<Longrightarrow> finite_string x = show_nat x"
proof -
  assume a: "x < 2 ^ 53"
  have "x < 10 ^ 21" using a by simp
  then have "ndigits 10 x \<le> 21" by (rule ndigits_le)
  then show ?thesis
    using a by (simp add: finite_string_def shortest_safe show_nat_0)
qed

text \<open>\<open>String(n)\<close> of an integer below \<open>2^53\<close> in magnitude is its decimal digits.\<close>

lemma number_string_safe: "\<bar>i\<bar> < 2 ^ 53 \<Longrightarrow> number_string i = show_int i"
proof -
  assume a: "\<bar>i\<bar> < 2 ^ 53"
  then have n: "nat \<bar>i\<bar> < 2 ^ 53"
    by (simp add: nat_less_iff)
  have r: "round53 (nat \<bar>i\<bar>) = nat \<bar>i\<bar>"
    using n by (rule round53_safe)
  have o: "\<not> overflows (nat \<bar>i\<bar>)"
    using ndigits_le [OF n] by (simp add: overflows_def)
  have f: "finite_string (nat \<bar>i\<bar>) = show_nat (nat \<bar>i\<bar>)"
    using n by (rule finite_string_safe)
  have "number_string i = (if i < 0 then ''-'' else []) @ show_nat (nat \<bar>i\<bar>)"
    unfolding number_string_def Let_def r using o f by (simp only: if_False)
  then show ?thesis
    by (cases "i < 0") (simp_all add: show_int_def)
qed

text \<open>
  Past \<open>2^53\<close> a sum is rounded: \<open>9007199254740992 + 1\<close> is \<open>9007199254740992\<close>, and
  \<open>9007199254740993\<close> denotes that same number.
\<close>

lemma add_rounds: "js_add (JNum 9007199254740992) (JNum 1) = JNum 9007199254740992"
  by (simp add: js_add_def norm_num_def overflows_def round53_def ndigits.simps Let_def)

lemma literal_rounds: "strict_eq (JNum 9007199254740993) (JNum 9007199254740992)"
  by (simp add: norm_num_def overflows_def round53_def ndigits.simps Let_def)


lemma show_small:
  "show_int 0 = ''0''" "show_int 5 = ''5''" "show_int 6 = ''6''" "show_int 7 = ''7''"
  by code_simp+

lemma string_small:
  "number_string 0 = ''0''" "number_string 5 = ''5''" "number_string 6 = ''6''"
  "number_string 7 = ''7''"
  by (simp_all add: number_string_safe show_small)

text \<open>From \<open>10^21\<close> on a number is written with an exponent.\<close>

lemma digit_chars:
  "digit_char 0 = CHR ''0''" "digit_char 1 = CHR ''1''" "digit_char (Suc 0) = CHR ''1''"
  "digit_char 2 = CHR ''2''" "digit_char 3 = CHR ''3''" "digit_char 4 = CHR ''4''"
  "digit_char 5 = CHR ''5''" "digit_char 6 = CHR ''6''" "digit_char 7 = CHR ''7''"
  "digit_char 8 = CHR ''8''" "digit_char 9 = CHR ''9''"
  by code_simp+

lemma shortest_step:
  assumes "0 < j"
  shows "shortest x j =
     (let p = 10 ^ j; s = x div p; v1 = s * p; v2 = (s + 1) * p;
          ok1 = (s \<noteq> 0 \<and> round53 v1 = x); ok2 = (round53 v2 = x)
      in if ok1 \<and> ok2
         then (if x - v1 < v2 - x \<or> (x - v1 = v2 - x \<and> even s) then v1 else v2)
         else if ok1 then v1
         else if ok2 then v2
         else shortest x (j - 1))"
proof -
  obtain n where j: "j = Suc n"
    using assms by (cases j) auto
  show ?thesis
    unfolding j shortest.simps diff_Suc_1 ..
qed

lemma string_1e21: "js_String (JNum 1000000000000000000000) = ''1e+21''"
proof -
  let ?x = "1000000000000000000000 :: nat"
  have r: "round53 ?x = ?x" "round53 (2 * ?x) \<noteq> ?x"
    by (simp_all add: round53_def ndigits.simps Let_def)
  have s: "shortest ?x 21 = ?x"
    using r by (subst shortest_step) (simp_all add: Let_def)
  have n: "ndigits 10 ?x = 22" "\<not> overflows ?x"
    by (simp_all add: overflows_def ndigits.simps)
  have d: "show_nat ?x = ''1000000000000000000000''" "show_nat 21 = ''21''"
    by (simp_all add: show_nat.simps digit_chars)
  show ?thesis
    by (simp add: number_string_def finite_string_def r s n d strip_zeros_def Let_def)
qed

section \<open>Properties of the connection hook\<close>

subsection \<open>What each operation leaves alone\<close>

lemma clear_timer_fields [simp]:
  "timers (clear_timer t h) = filter (\<lambda>x. handle x \<noteq> t) (timers h)"
  "sockets (clear_timer t h) = sockets h"
  "next_handle (clear_timer t h) = next_handle h"
  "wsRef (clear_timer t h) = wsRef h"
  "reconnectTimeoutRef (clear_timer t h) = reconnectTimeoutRef h"
  "attempts (clear_timer t h) = attempts h"
  "delivered (clear_timer t h) = delivered h"
  by (simp_all add: clear_timer_def)

lemma clear_if_set_fields [simp]:
  "sockets (clear_if_set r h) = sockets h"
  "next_handle (clear_if_set r h) = next_handle h"
  "wsRef (clear_if_set r h) = wsRef h"
  "reconnectTimeoutRef (clear_if_set r h) = reconnectTimeoutRef h"
  "attempts (clear_if_set r h) = attempts h"
  "delivered (clear_if_set r h) = delivered h"
  by (simp_all add: clear_if_set_def split: option.splits)

lemma timers_clear_if_set:
  "timers (clear_if_set r h) =
     (case r of None \<Rightarrow> timers h
      | Some t \<Rightarrow> if t \<noteq> 0 then filter (\<lambda>x. handle x \<noteq> t) (timers h) else timers h)"
  by (simp add: clear_if_set_def split: option.splits)

lemma clear_ping_fields [simp]:
  "sockets (clear_ping sid h) = sockets h"
  "next_handle (clear_ping sid h) = next_handle h"
  "wsRef (clear_ping sid h) = wsRef h"
  "reconnectTimeoutRef (clear_ping sid h) = reconnectTimeoutRef h"
  "attempts (clear_ping sid h) = attempts h"
  "delivered (clear_ping sid h) = delivered h"
  by (simp_all add: clear_ping_def)

lemma upd_socket_fields [simp]:
  "timers (upd_socket sid f h) = timers h"
  "next_handle (upd_socket sid f h) = next_handle h"
  "wsRef (upd_socket sid f h) = wsRef h"
  "reconnectTimeoutRef (upd_socket sid f h) = reconnectTimeoutRef h"
  "attempts (upd_socket sid f h) = attempts h"
  "delivered (upd_socket sid f h) = delivered h"
  "length (sockets (upd_socket sid f h)) = length (sockets h)"
  "(sockets (upd_socket sid f h) = []) = (sockets h = [])"
  by (simp_all add: upd_socket_def)

lemma upd_socket_nth:
  "i < length (sockets h) \<Longrightarrow>
     sockets (upd_socket sid f h) ! i = (if i = sid then f (sockets h ! i) else sockets h ! i)"
  by (simp add: upd_socket_def)

lemma onclose_eq:
  "onclose sid code h =
     (let h1 = clear_ping sid (h\<lparr>isConnected := False\<rparr>)
      in if code \<noteq> 1000
         then h1\<lparr>timers := timers h1 @ [\<lparr>handle = Suc (next_handle h), kind = Timeout,
                     delay = 3000, callback = Reconnect\<rparr>],
                 next_handle := Suc (next_handle h),
                 reconnectTimeoutRef := Some (Suc (next_handle h))\<rparr>
         else h1)"
  by (simp add: onclose_def set_timer_def Let_def)

subsection \<open>The timers are well formed in every state\<close>

lemma timers_ok_init: "timers_ok init_hook"
  by (simp add: timers_ok_def init_hook_def)

lemma timers_ok_connect: "timers_ok h \<Longrightarrow> timers_ok (connect p throws h)"
  by (auto simp: timers_ok_def connect_def Let_def nth_append)

lemma timers_ok_clear_timer: "timers_ok h \<Longrightarrow> timers_ok (clear_timer t h)"
  by (auto simp: timers_ok_def)

lemma timers_ok_clear_if_set: "timers_ok h \<Longrightarrow> timers_ok (clear_if_set r h)"
  by (auto simp: clear_if_set_def timers_ok_clear_timer split: option.splits)

lemma timers_ok_clear_ping: "timers_ok h \<Longrightarrow> timers_ok (clear_ping sid h)"
  by (simp add: clear_ping_def timers_ok_clear_if_set)

lemma timers_ok_send: "timers_ok h \<Longrightarrow> timers_ok (ws_send sid s h)"
  by (auto simp: timers_ok_def ws_send_def upd_socket_nth)

lemma timers_ok_ping_tick: "timers_ok h \<Longrightarrow> timers_ok (ping_tick sid h)"
  by (simp add: ping_tick_def send_json_def timers_ok_send)

lemma timers_ok_sendMessage: "timers_ok h \<Longrightarrow> timers_ok (sendMessage d h)"
  by (simp add: sendMessage_def send_json_def timers_ok_send split: option.splits)

lemma timers_ok_onmessage: "timers_ok h \<Longrightarrow> timers_ok (onmessage p parsed h)"
  by (auto simp: timers_ok_def onmessage_def Let_def split: sum.splits)

lemma timers_ok_ws_close: "timers_ok h \<Longrightarrow> timers_ok (ws_close sid c r h)"
  by (auto simp: timers_ok_def ws_close_def upd_socket_nth)

lemma timers_ok_cleanup: "timers_ok h \<Longrightarrow> timers_ok (cleanup h)"
  by (simp add: cleanup_def Let_def timers_ok_clear_if_set timers_ok_clear_ping
      timers_ok_ws_close split: option.splits)

lemma timers_ok_fire: "timers_ok h \<Longrightarrow> timers_ok (fire p throws t h)"
  by (simp add: fire_def Let_def timers_ok_clear_timer timers_ok_connect timers_ok_ping_tick
      split: callback.splits)

lemma timers_ok_socket_open:
  assumes "timers_ok h" "sid < length (sockets h)" "readyState (sockets h ! sid) = CONNECTING"
  shows "timers_ok (socket_open sid h)"
  using assms
  by (auto simp: timers_ok_def socket_open_def onopen_def set_timer_def upd_socket_nth)

lemma timers_ok_onclose:
  assumes "timers_ok h" "sid < length (sockets h)"
  shows "timers_ok (onclose sid code h)"
proof -
  have "timers_ok (h\<lparr>isConnected := False\<rparr>)"
    using assms(1) by (simp add: timers_ok_def)
  then have "timers_ok (clear_ping sid (h\<lparr>isConnected := False\<rparr>))"
    by (rule timers_ok_clear_ping)
  moreover have "sockets h \<noteq> []"
    using assms(2) by auto
  ultimately show ?thesis
    unfolding onclose_eq Let_def by (auto simp: timers_ok_def)
qed

lemma timers_ok_socket_close:
  assumes "timers_ok h" "sid < length (sockets h)"
  shows "timers_ok (socket_close sid code h)"
proof -
  have "timers_ok (upd_socket sid (\<lambda>w. w\<lparr>readyState := CLOSED\<rparr>) h)"
    using assms(1) by (auto simp: timers_ok_def upd_socket_nth)
  then show ?thesis
    using assms(2) by (simp add: socket_close_def timers_ok_onclose)
qed

lemma reachable_timers_ok: "reachable p h \<Longrightarrow> timers_ok h"
proof (induction rule: reachable.induct)
  case (r_mount throws)
  then show ?case by (simp add: timers_ok_connect timers_ok_init)
next
  case (r_open h sid)
  then show ?case by (simp add: timers_ok_socket_open)
next
  case (r_message h sid parsed)
  then show ?case by (simp add: timers_ok_onmessage)
next
  case (r_close h sid code)
  then show ?case by (simp add: timers_ok_socket_close)
next
  case (r_timer h t throws)
  then show ?case by (simp add: timers_ok_fire)
next
  case (r_send h data)
  then show ?case by (simp add: timers_ok_sendMessage)
next
  case (r_unmount h)
  then show ?case by (simp add: timers_ok_cleanup)
qed

subsection \<open>One socket or one reconnect at a time\<close>

lemma length_filter_update:
  "i < length xs \<Longrightarrow>
     length (filter P (xs[i := y])) + (if P (xs ! i) then 1 else 0)
       = length (filter P xs) + (if P y then 1 else 0)"
proof (induction xs arbitrary: i)
  case Nil
  then show ?case by simp
next
  case (Cons x xs)
  then show ?case by (cases i) auto
qed

lemma live_upd_same:
  assumes "\<And>w. (readyState (f w) \<noteq> CLOSED) = (readyState w \<noteq> CLOSED)"
  shows "live (upd_socket sid f h) = live h"
proof (cases "sid < length (sockets h)")
  case True
  from length_filter_update [OF True, of "\<lambda>w. readyState w \<noteq> CLOSED" "f (sockets h ! sid)"]
  show ?thesis using assms True by (simp add: upd_socket_def)
next
  case False
  then show ?thesis by (simp add: upd_socket_def)
qed

lemma live_upd_closed:
  assumes "sid < length (sockets h)" "readyState (sockets h ! sid) \<noteq> CLOSED"
  shows "Suc (live (upd_socket sid (\<lambda>w. w\<lparr>readyState := CLOSED\<rparr>) h)) = live h"
  using length_filter_update [OF assms(1), of "\<lambda>w. readyState w \<noteq> CLOSED"
      "(sockets h ! sid)\<lparr>readyState := CLOSED\<rparr>"] assms
  by (simp add: upd_socket_def)

lemma length_filter_filter_le:
  "length (filter (\<lambda>x. Q x \<and> P x) xs) \<le> length (filter P xs)"
  by (induction xs) auto

lemma pending_clear_if_set: "pending (clear_if_set r h) \<le> pending h"
  by (simp add: timers_clear_if_set length_filter_filter_le split: option.splits)

lemma pending_clear_ping: "pending (clear_ping sid h) \<le> pending h"
  by (simp add: clear_ping_def pending_clear_if_set)

lemma pending_clear_member:
  assumes "t \<in> set (timers h)" "callback t = Reconnect"
  shows "pending (clear_timer (handle t) h) < pending h"
proof -
  have "filter (\<lambda>t. callback t = Reconnect) (filter (\<lambda>x. handle x \<noteq> handle t) (timers h))
      = filter (\<lambda>x. handle x \<noteq> handle t) (filter (\<lambda>t. callback t = Reconnect) (timers h))"
    by (simp add: conj_commute)
  moreover have "t \<in> set (filter (\<lambda>t. callback t = Reconnect) (timers h))"
    using assms by simp
  ultimately show ?thesis
    using length_filter_less [of t "filter (\<lambda>t. callback t = Reconnect) (timers h)"
        "\<lambda>x. handle x \<noteq> handle t"]
    by simp
qed

lemma live_connect: "live (connect p throws h) \<le> Suc (live h)"
  by (simp add: connect_def Let_def new_socket_def)

lemma pending_connect [simp]: "pending (connect p throws h) = pending h"
  by (simp add: connect_def Let_def)

lemma live_onclose [simp]: "live (onclose sid code h) = live h"
  by (simp add: onclose_eq Let_def)

lemma pending_onclose: "pending (onclose sid code h) \<le> Suc (pending h)"
proof -
  have "pending (clear_ping sid (h\<lparr>isConnected := False\<rparr>)) \<le> pending h"
    using pending_clear_ping [of sid "h\<lparr>isConnected := False\<rparr>"] by simp
  then show ?thesis
    by (simp add: onclose_eq Let_def)
qed

lemma one_live_socket_close:
  assumes "one_live h" "sid < length (sockets h)" "readyState (sockets h ! sid) \<noteq> CLOSED"
  shows "one_live (socket_close sid code h)"
proof -
  let ?demo_hook = "upd_socket sid (\<lambda>w. w\<lparr>readyState := CLOSED\<rparr>) h"
  have "Suc (live ?demo_hook) = live h"
    using assms(2,3) by (rule live_upd_closed)
  moreover have "pending ?demo_hook = pending h"
    by simp
  moreover have "pending (onclose sid code ?demo_hook) \<le> Suc (pending ?demo_hook)"
    by (rule pending_onclose)
  moreover have "live (onclose sid code ?demo_hook) = live ?demo_hook"
    by (rule live_onclose)
  moreover have "live h + pending h \<le> 1"
    using assms(1) unfolding one_live_def .
  ultimately have "live (onclose sid code ?demo_hook) + pending (onclose sid code ?demo_hook) \<le> 1"
    by linarith
  then show ?thesis
    unfolding one_live_def socket_close_def .
qed

lemma live_socket_open:
  assumes "sid < length (sockets h)" "readyState (sockets h ! sid) = CONNECTING"
  shows "live (socket_open sid h) = live h"
proof -
  have a: "live (upd_socket sid (\<lambda>s. s\<lparr>pingInterval := Some x\<rparr>) g) = live g" for x g
    by (rule live_upd_same) simp
  have b: "live (upd_socket sid (\<lambda>w. w\<lparr>readyState := OPEN\<rparr>) h) = live h"
    using length_filter_update [OF assms(1), of "\<lambda>w. readyState w \<noteq> CLOSED"
        "(sockets h ! sid)\<lparr>readyState := OPEN\<rparr>"] assms
    by (simp add: upd_socket_def)
  have "live (socket_open sid h) = live (upd_socket sid (\<lambda>w. w\<lparr>readyState := OPEN\<rparr>) h)"
    by (simp add: socket_open_def onopen_def set_timer_def a)
  with b show ?thesis by simp
qed

lemma pending_socket_open [simp]: "pending (socket_open sid h) = pending h"
  by (simp add: socket_open_def onopen_def set_timer_def)

lemma one_live_socket_open:
  assumes "one_live h" "sid < length (sockets h)" "readyState (sockets h ! sid) = CONNECTING"
  shows "one_live (socket_open sid h)"
  using assms(1) live_socket_open [OF assms(2,3)] unfolding one_live_def by simp

lemma live_ws_send [simp]: "live (ws_send sid s h) = live h"
  unfolding ws_send_def by (rule live_upd_same) simp

lemma pending_ws_send [simp]: "pending (ws_send sid s h) = pending h"
  by (simp add: ws_send_def)

lemma one_live_ping_tick: "one_live h \<Longrightarrow> one_live (ping_tick sid h)"
  by (simp add: one_live_def ping_tick_def send_json_def)

lemma one_live_sendMessage: "one_live h \<Longrightarrow> one_live (sendMessage d h)"
  by (simp add: one_live_def sendMessage_def send_json_def split: option.splits)

lemma one_live_onmessage: "one_live h \<Longrightarrow> one_live (onmessage p parsed h)"
  by (simp add: one_live_def onmessage_def Let_def split: sum.splits)

lemma live_ws_close [simp]: "live (ws_close sid c r h) = live h"
  unfolding ws_close_def by (rule live_upd_same) simp

lemma pending_ws_close [simp]: "pending (ws_close sid c r h) = pending h"
  by (simp add: ws_close_def)

lemma one_live_cleanup:
  assumes "one_live h"
  shows "one_live (cleanup h)"
proof -
  let ?h1 = "clear_if_set (reconnectTimeoutRef h) h"
  have a: "pending ?h1 \<le> pending h" by (rule pending_clear_if_set)
  have b: "pending (clear_ping sid ?h1) \<le> pending ?h1" for sid by (rule pending_clear_ping)
  have c: "live h + pending h \<le> 1"
    using assms unfolding one_live_def .
  show ?thesis
  proof (cases "wsRef h")
    case None
    then have "cleanup h = ?h1" by (simp add: cleanup_def Let_def)
    moreover have "live ?h1 = live h" by simp
    ultimately show ?thesis using a c unfolding one_live_def by simp
  next
    case (Some sid)
    then have "cleanup h = ws_close sid 1000 ''Component unmounting'' (clear_ping sid ?h1)"
      by (simp add: cleanup_def Let_def)
    moreover have "live (ws_close sid 1000 ''Component unmounting'' (clear_ping sid ?h1)) = live h"
      by simp
    moreover have "pending (ws_close sid 1000 ''Component unmounting'' (clear_ping sid ?h1)) \<le> pending h"
      using a b [of sid] by simp
    ultimately show ?thesis using c unfolding one_live_def by simp
  qed
qed

lemma one_live_fire:
  assumes "one_live h" "timers_ok h" "t \<in> set (timers h)"
  shows "one_live (fire p throws t h)"
proof (cases "callback t")
  case Reconnect
  then have k: "kind t = Timeout"
    using assms(2,3) by (auto simp: timers_ok_def)
  have "pending (clear_timer (handle t) h) < pending h"
    using assms(3) Reconnect by (rule pending_clear_member)
  moreover have "live (connect p throws (clear_timer (handle t) h)) \<le> Suc (live h)"
    using live_connect [of p throws "clear_timer (handle t) h"] by simp
  moreover have "live h + pending h \<le> 1"
    using assms(1) unfolding one_live_def .
  moreover have "fire p throws t h = connect p throws (clear_timer (handle t) h)"
    using Reconnect k by (simp add: fire_def)
  ultimately show ?thesis
    unfolding one_live_def by simp
next
  case (Ping sid)
  have "pending (clear_timer (handle t) h) \<le> pending h"
    by (simp add: length_filter_filter_le)
  moreover have "live (clear_timer (handle t) h) = live h" by simp
  ultimately have "one_live (clear_timer (handle t) h)"
    using assms(1) unfolding one_live_def by linarith
  then show ?thesis
    using Ping assms(1) by (simp add: fire_def one_live_ping_tick)
qed

lemma one_live_mount: "one_live (connect p throws init_hook)"
  using live_connect [of p throws init_hook]
  by (simp add: one_live_def init_hook_def)

lemma reachable_one_live: "reachable p h \<Longrightarrow> one_live h"
proof (induction rule: reachable.induct)
  case (r_mount throws)
  then show ?case by (rule one_live_mount)
next
  case (r_open h sid)
  then show ?case by (simp add: one_live_socket_open)
next
  case (r_message h sid parsed)
  then show ?case by (simp add: one_live_onmessage)
next
  case (r_close h sid code)
  then show ?case by (simp add: one_live_socket_close)
next
  case (r_timer h t throws)
  then show ?case by (simp add: one_live_fire reachable_timers_ok)
next
  case (r_send h data)
  then show ?case by (simp add: one_live_sendMessage)
next
  case (r_unmount h)
  then show ?case by (simp add: one_live_cleanup)
qed

lemma live_pos:
  assumes "sid < length (sockets h)" "readyState (sockets h ! sid) \<noteq> CLOSED"
  shows "0 < live h"
proof -
  have "sockets h ! sid \<in> set (filter (\<lambda>w. readyState w \<noteq> CLOSED) (sockets h))"
    using assms by simp
  then show ?thesis
    by (rule length_pos_if_in_set)
qed

lemma no_pending:
  assumes "one_live h" "sid < length (sockets h)" "readyState (sockets h ! sid) \<noteq> CLOSED"
  shows "filter (\<lambda>t. callback t = Reconnect) (timers h) = []"
proof -
  have "0 < live h" using assms(2,3) by (rule live_pos)
  moreover have "live h + pending h \<le> 1" using assms(1) unfolding one_live_def .
  ultimately have "pending h = 0" by linarith
  then show ?thesis by simp
qed

lemma filter_timers_clear_ping:
  assumes "filter P (timers h) = []"
  shows "filter P (timers (clear_ping sid h)) = []"
  using assms
  by (auto simp: clear_ping_def timers_clear_if_set filter_empty_conv split: option.splits)

lemma reconnect_timers_socket_close:
  assumes "one_live h" "sid < length (sockets h)" "readyState (sockets h ! sid) \<noteq> CLOSED"
  shows "filter (\<lambda>t. callback t = Reconnect) (timers (socket_close sid code h)) =
     (if code \<noteq> 1000
      then [\<lparr>handle = Suc (next_handle h), kind = Timeout, delay = 3000, callback = Reconnect\<rparr>]
      else [])"
proof -
  let ?demo_hook = "(upd_socket sid (\<lambda>w. w\<lparr>readyState := CLOSED\<rparr>) h)\<lparr>isConnected := False\<rparr>"
  have "filter (\<lambda>t. callback t = Reconnect) (timers ?demo_hook) = []"
    using no_pending [OF assms] by simp
  then have "filter (\<lambda>t. callback t = Reconnect) (timers (clear_ping sid ?demo_hook)) = []"
    by (rule filter_timers_clear_ping)
  then show ?thesis
    by (simp add: socket_close_def onclose_eq Let_def)
qed

lemma reconnect_held_socket_close:
  assumes "one_live h" "sid < length (sockets h)" "readyState (sockets h ! sid) \<noteq> CLOSED"
  shows "reconnect_held (socket_close sid code h)"
proof -
  have f: "filter (\<lambda>t. callback t = Reconnect) (timers (socket_close sid code h)) =
     (if code \<noteq> 1000
      then [\<lparr>handle = Suc (next_handle h), kind = Timeout, delay = 3000, callback = Reconnect\<rparr>]
      else [])"
    using assms by (rule reconnect_timers_socket_close)
  have r: "code \<noteq> 1000 \<Longrightarrow> reconnectTimeoutRef (socket_close sid code h) = Some (Suc (next_handle h))"
    by (simp add: socket_close_def onclose_eq Let_def)
  show ?thesis
    unfolding reconnect_held_def
  proof (intro ballI impI)
    fix t assume "t \<in> set (timers (socket_close sid code h))" "callback t = Reconnect"
    then have "t \<in> set (filter (\<lambda>t. callback t = Reconnect) (timers (socket_close sid code h)))"
      by simp
    with f have "code \<noteq> 1000 \<and> handle t = Suc (next_handle h)"
      by (auto split: if_splits)
    with r show "reconnectTimeoutRef (socket_close sid code h) = Some (handle t)"
      by simp
  qed
qed

lemma reconnect_held_subset:
  assumes "reconnect_held h" "set (timers g) \<subseteq> set (timers h)"
    "reconnectTimeoutRef g = reconnectTimeoutRef h"
  shows "reconnect_held g"
  using assms unfolding reconnect_held_def by auto

lemma set_timers_clear_if_set: "set (timers (clear_if_set r h)) \<subseteq> set (timers h)"
  by (auto simp: timers_clear_if_set split: option.splits)

lemma set_timers_clear_ping: "set (timers (clear_ping sid h)) \<subseteq> set (timers h)"
  using set_timers_clear_if_set by (simp add: clear_ping_def)

lemma connect_keeps [simp]:
  "timers (connect p throws h) = timers h"
  "reconnectTimeoutRef (connect p throws h) = reconnectTimeoutRef h"
  "next_handle (connect p throws h) = next_handle h"
  "delivered (connect p throws h) = delivered h"
  by (simp_all add: connect_def Let_def)

lemma ws_send_keeps [simp]:
  "timers (ws_send sid s h) = timers h"
  "reconnectTimeoutRef (ws_send sid s h) = reconnectTimeoutRef h"
  "next_handle (ws_send sid s h) = next_handle h"
  "delivered (ws_send sid s h) = delivered h"
  "attempts (ws_send sid s h) = attempts h"
  by (simp_all add: ws_send_def)

lemma ping_tick_keeps [simp]:
  "timers (ping_tick sid h) = timers h"
  "reconnectTimeoutRef (ping_tick sid h) = reconnectTimeoutRef h"
  "next_handle (ping_tick sid h) = next_handle h"
  "delivered (ping_tick sid h) = delivered h"
  "attempts (ping_tick sid h) = attempts h"
  by (simp_all add: ping_tick_def send_json_def)

lemma sendMessage_keeps [simp]:
  "timers (sendMessage d h) = timers h"
  "reconnectTimeoutRef (sendMessage d h) = reconnectTimeoutRef h"
  by (simp_all add: sendMessage_def send_json_def split: option.splits)

lemma onmessage_keeps [simp]:
  "timers (onmessage p parsed h) = timers h"
  "reconnectTimeoutRef (onmessage p parsed h) = reconnectTimeoutRef h"
  "sockets (onmessage p parsed h) = sockets h"
  "attempts (onmessage p parsed h) = attempts h"
  by (simp_all add: onmessage_def Let_def split: sum.splits)

lemma ws_close_keeps [simp]:
  "timers (ws_close sid c r h) = timers h"
  "reconnectTimeoutRef (ws_close sid c r h) = reconnectTimeoutRef h"
  "next_handle (ws_close sid c r h) = next_handle h"
  "delivered (ws_close sid c r h) = delivered h"
  "attempts (ws_close sid c r h) = attempts h"
  by (simp_all add: ws_close_def)

lemma reconnect_held_fire:
  assumes "reconnect_held h"
  shows "reconnect_held (fire p throws t h)"
proof -
  have "set (timers (fire p throws t h)) \<subseteq> set (timers h)"
    by (auto simp: fire_def Let_def split: callback.splits)
  moreover have "reconnectTimeoutRef (fire p throws t h) = reconnectTimeoutRef h"
    by (simp add: fire_def Let_def split: callback.splits)
  ultimately show ?thesis
    using assms reconnect_held_subset by blast
qed

lemma reconnect_held_cleanup:
  assumes "reconnect_held h"
  shows "reconnect_held (cleanup h)"
proof -
  have "set (timers (cleanup h)) \<subseteq> set (timers h)"
    using set_timers_clear_if_set [of "reconnectTimeoutRef h" h]
      set_timers_clear_ping [of _ "clear_if_set (reconnectTimeoutRef h) h"]
    by (auto simp: cleanup_def Let_def split: option.splits)
  moreover have "reconnectTimeoutRef (cleanup h) = reconnectTimeoutRef h"
    by (simp add: cleanup_def Let_def split: option.splits)
  ultimately show ?thesis
    using assms reconnect_held_subset by blast
qed

lemma reconnect_held_socket_open:
  "reconnect_held h \<Longrightarrow> reconnect_held (socket_open sid h)"
  by (auto simp: reconnect_held_def socket_open_def onopen_def set_timer_def)

lemma reachable_reconnect_held: "reachable p h \<Longrightarrow> reconnect_held h"
proof (induction rule: reachable.induct)
  case (r_mount throws)
  then show ?case by (simp add: reconnect_held_def init_hook_def)
next
  case (r_open h sid)
  then show ?case by (simp add: reconnect_held_socket_open)
next
  case (r_message h sid parsed)
  then show ?case by (simp add: reconnect_held_def)
next
  case (r_close h sid code)
  then show ?case by (simp add: reconnect_held_socket_close reachable_one_live)
next
  case (r_timer h t throws)
  then show ?case by (simp add: reconnect_held_fire)
next
  case (r_send h data)
  then show ?case by (simp add: reconnect_held_def)
next
  case (r_unmount h)
  then show ?case by (simp add: reconnect_held_cleanup)
qed

lemma cleanup_cancels_reconnect:
  assumes "reconnect_held h" "timers_ok h"
  shows "filter (\<lambda>t. callback t = Reconnect) (timers (cleanup h)) = []"
proof -
  have "filter (\<lambda>t. callback t = Reconnect) (timers (clear_if_set (reconnectTimeoutRef h) h)) = []"
    using assms
    by (auto simp: timers_clear_if_set filter_empty_conv reconnect_held_def timers_ok_def
        split: option.splits)
  then show ?thesis
    by (auto simp: cleanup_def Let_def filter_timers_clear_ping split: option.splits)
qed

lemma cleanup_closes:
  assumes "wsRef h = Some sid" "sid < length (sockets h)"
  shows "closes (sockets (cleanup h) ! sid) = closes (sockets h ! sid) @ [(1000, ''Component unmounting'')]"
  using assms by (simp add: cleanup_def Let_def ws_close_def upd_socket_nth)

lemma length_sockets_keeps [simp]:
  "length (sockets (socket_open sid h)) = length (sockets h)"
  "length (sockets (socket_close sid code h)) = length (sockets h)"
  "length (sockets (ping_tick sid h)) = length (sockets h)"
  "length (sockets (sendMessage d h)) = length (sockets h)"
  "length (sockets (cleanup h)) = length (sockets h)"
  by (simp_all add: socket_open_def onopen_def set_timer_def socket_close_def onclose_eq Let_def
      ping_tick_def send_json_def ws_send_def sendMessage_def cleanup_def ws_close_def
      split: option.splits)

lemma sockets_connect_empty:
  "sockets (connect p throws h) \<noteq> [] \<Longrightarrow> sockets h = [] \<Longrightarrow> truthy (agentId p) \<and> truthy (sector p)"
  by (auto simp: connect_def Let_def split: if_splits)

lemma reachable_props_given:
  "reachable p h \<Longrightarrow> sockets h \<noteq> [] \<Longrightarrow> truthy (agentId p) \<and> truthy (sector p)"
proof (induction rule: reachable.induct)
  case (r_mount throws)
  then show ?case
    using sockets_connect_empty [of p throws init_hook] by (simp add: init_hook_def)
next
  case (r_open h sid)
  then show ?case by (metis length_sockets_keeps(1) length_0_conv)
next
  case (r_message h sid parsed)
  then show ?case by simp
next
  case (r_close h sid code)
  then show ?case by (metis length_sockets_keeps(2) length_0_conv)
next
  case (r_timer h t throws)
  show ?case
  proof (cases "sockets h = []")
    case True
    with r_timer.prems show ?thesis
      by (auto simp: fire_def Let_def connect_def ping_tick_def split: callback.splits if_splits)
  next
    case False
    then show ?thesis using r_timer.IH by simp
  qed
next
  case (r_send h data)
  then show ?case by (metis length_sockets_keeps(4) length_0_conv)
next
  case (r_unmount h)
  then show ?case by (metis length_sockets_keeps(5) length_0_conv)
qed

subsection \<open>Reconnection\<close>

text \<open>
  When a socket of the hook that has not yet closed receives its close event, a
  reconnect is pending afterwards if and only if the event's code is not 1000, and then
  it is one timeout of 3000 ms whose callback is \<open>connect\<close>: firing it makes a new
  connection attempt to the same URL. The teardown cancels a pending reconnect and
  calls \<open>close(1000, 'Component unmounting')\<close> on the current socket.
\<close>

lemma close_event_reconnect:
  assumes "reachable p h" "sid < length (sockets h)" "readyState (sockets h ! sid) \<noteq> CLOSED"
  shows "filter (\<lambda>t. callback t = Reconnect) (timers (socket_close sid code h)) =
       (if code \<noteq> 1000
        then [\<lparr>handle = Suc (next_handle h), kind = Timeout, delay = 3000, callback = Reconnect\<rparr>]
        else [])
     \<and> (\<forall>t\<in>set (timers (socket_close sid code h)). callback t = Reconnect \<longrightarrow>
          attempts (fire p throws t (socket_close sid code h)) = attempts h @ [wsUrl p])
     \<and> filter (\<lambda>t. callback t = Reconnect) (timers (cleanup h)) = []
     \<and> (wsRef h = Some sid \<longrightarrow>
          closes (sockets (cleanup h) ! sid)
            = closes (sockets h ! sid) @ [(1000, ''Component unmounting'')])"
proof (intro conjI)
  show "filter (\<lambda>t. callback t = Reconnect) (timers (socket_close sid code h)) =
       (if code \<noteq> 1000
        then [\<lparr>handle = Suc (next_handle h), kind = Timeout, delay = 3000, callback = Reconnect\<rparr>]
        else [])"
    using reachable_one_live [OF assms(1)] assms(2,3) by (rule reconnect_timers_socket_close)
  have "sockets h \<noteq> []"
    using assms(2) by auto
  then have tr: "truthy (agentId p) \<and> truthy (sector p)"
    using assms(1) by (simp add: reachable_props_given)
  have at: "attempts (socket_close sid code h) = attempts h"
    by (simp add: socket_close_def onclose_eq Let_def)
  show "\<forall>t\<in>set (timers (socket_close sid code h)). callback t = Reconnect \<longrightarrow>
          attempts (fire p throws t (socket_close sid code h)) = attempts h @ [wsUrl p]"
    using tr at by (auto simp: fire_def Let_def connect_def)
  show "filter (\<lambda>t. callback t = Reconnect) (timers (cleanup h)) = []"
    using reachable_reconnect_held [OF assms(1)] reachable_timers_ok [OF assms(1)]
    by (rule cleanup_cancels_reconnect)
  show "wsRef h = Some sid \<longrightarrow>
          closes (sockets (cleanup h) ! sid)
            = closes (sockets h ! sid) @ [(1000, ''Component unmounting'')]"
    using assms(2) by (simp add: cleanup_closes)
qed

lemma demo_hook_eq:
  "demo_hook = \<lparr>wsRef = Some 0, reconnectTimeoutRef = None, isConnected = True, lastMessage = Null,
     sockets = [\<lparr>ws_url = wsUrl demo_props, readyState = OPEN, pingInterval = Some 1, sent = [],
        closes = []\<rparr>],
     timers = [\<lparr>handle = 1, kind = Interval, delay = 30000, callback = Ping 0\<rparr>],
     next_handle = 1, attempts = [wsUrl demo_props], delivered = []\<rparr>"
  by (simp add: demo_hook_def demo_props_def socket_open_def onopen_def set_timer_def connect_def init_hook_def
      new_socket_def upd_socket_def Let_def)

lemma reachable_demo_hook: "reachable demo_props demo_hook"
  unfolding demo_hook_def
  by (rule r_open [OF r_mount]) (simp_all add: connect_def demo_props_def init_hook_def new_socket_def Let_def)

lemma close_event_reconnect_demo:
  "reachable demo_props demo_hook \<and> readyState (sockets demo_hook ! 0) = OPEN
   \<and> filter (\<lambda>t. callback t = Reconnect) (timers (socket_close 0 1006 demo_hook)) =
       [\<lparr>handle = 2, kind = Timeout, delay = 3000, callback = Reconnect\<rparr>]
   \<and> filter (\<lambda>t. callback t = Reconnect) (timers (socket_close 0 1000 demo_hook)) = []
   \<and> attempts (fire demo_props False \<lparr>handle = 2, kind = Timeout, delay = 3000, callback = Reconnect\<rparr>
        (socket_close 0 1006 demo_hook)) = [wsUrl demo_props, wsUrl demo_props]
   \<and> closes (sockets (cleanup demo_hook) ! 0) = [(1000, ''Component unmounting'')]"
proof -
  have a: "0 < length (sockets demo_hook)" "readyState (sockets demo_hook ! 0) \<noteq> CLOSED"
    by (simp_all add: demo_hook_eq)
  have m: "\<lparr>handle = 2, kind = Timeout, delay = 3000, callback = Reconnect\<rparr>
      \<in> set (timers (socket_close 0 1006 demo_hook))"
    by (simp add: demo_hook_eq socket_close_def onclose_eq Let_def upd_socket_def clear_ping_def
        clear_if_set_def)
  show ?thesis
    using close_event_reconnect [OF reachable_demo_hook a, of 1006 False]
      close_event_reconnect [OF reachable_demo_hook a, of 1000 False] m reachable_demo_hook
    by (auto simp: demo_hook_eq)
qed

lemma demo_unmounted_eq:
  "demo_unmounted =
     \<lparr>wsRef = Some 0, reconnectTimeoutRef = None, isConnected = False, lastMessage = Null,
      sockets = [\<lparr>ws_url = wsUrl demo_props, readyState = CLOSING, pingInterval = None,
         sent = [], closes = [(1000, ''Component unmounting'')]\<rparr>],
      timers = [], next_handle = 0, attempts = [wsUrl demo_props], delivered = []\<rparr>"
  by (simp add: demo_unmounted_def demo_connecting_def cleanup_def ws_close_def clear_ping_def
      clear_if_set_def connect_def demo_props_def init_hook_def new_socket_def upd_socket_def Let_def)

lemma demo_torn_eq:
  "demo_torn =
     \<lparr>wsRef = Some 0, reconnectTimeoutRef = Some 1, isConnected = False, lastMessage = Null,
      sockets = [\<lparr>ws_url = wsUrl demo_props, readyState = CLOSED, pingInterval = None,
         sent = [], closes = [(1000, ''Component unmounting'')]\<rparr>],
      timers = [torn_timer], next_handle = 1, attempts = [wsUrl demo_props], delivered = []\<rparr>"
  by (simp add: demo_torn_def demo_unmounted_eq socket_close_def onclose_eq set_timer_def
      clear_ping_def clear_if_set_def upd_socket_def torn_timer_def Let_def)

lemma demo_torn_fired_eq:
  "fire demo_props False torn_timer demo_torn =
     \<lparr>wsRef = Some 1, reconnectTimeoutRef = Some 1, isConnected = False, lastMessage = Null,
      sockets = [\<lparr>ws_url = wsUrl demo_props, readyState = CLOSED, pingInterval = None,
         sent = [], closes = [(1000, ''Component unmounting'')]\<rparr>, new_socket (wsUrl demo_props)],
      timers = [], next_handle = 1, attempts = [wsUrl demo_props, wsUrl demo_props],
      delivered = []\<rparr>"
  by (simp add: demo_torn_eq fire_def torn_timer_def clear_timer_def connect_def demo_props_def
      Let_def)

text \<open>
  The teardown of a socket that is still connecting, that socket's close event with
  code 1006 and the timer's firing after it are steps of the hook: each state of the
  run is one the hook reaches.
\<close>

lemma reachable_demo_torn:
  "reachable demo_props demo_unmounted"
  "reachable demo_props demo_torn"
  "reachable demo_props (fire demo_props False torn_timer demo_torn)"
proof -
  show r0: "reachable demo_props demo_unmounted"
    unfolding demo_unmounted_def demo_connecting_def by (rule r_unmount [OF r_mount])
  show r1: "reachable demo_props demo_torn"
    unfolding demo_torn_def using r0 by (rule r_close) (simp_all add: demo_unmounted_eq)
  show "reachable demo_props (fire demo_props False torn_timer demo_torn)"
    using r1 by (rule r_timer) (simp add: demo_torn_eq)
qed

text \<open>
  Claim C1. A teardown can be followed by a reconnection. Agent 7's first socket is
  still \<open>CONNECTING\<close> when the component is torn down: the cleanup calls
  \<open>close(1000, 'Component unmounting')\<close> on it and leaves no timer pending; the browser
  reports the close of a connection that was never established with code 1006, and
  \<open>onclose\<close>, which only compares the event's code with 1000, schedules \<open>connect\<close>
  after 3000 ms. When that timer fires, a second connection is attempted, to the same
  URL, and a new socket is connecting.
\<close>

theorem reconnect_after_teardown:
  "readyState (sockets demo_connecting ! 0) = CONNECTING
   \<and> demo_unmounted = cleanup demo_connecting
   \<and> closes (sockets demo_unmounted ! 0) = [(1000, ''Component unmounting'')]
   \<and> timers demo_unmounted = []
   \<and> demo_torn = socket_close 0 1006 demo_unmounted
   \<and> timers demo_torn = [\<lparr>handle = 1, kind = Timeout, delay = 3000, callback = Reconnect\<rparr>]
   \<and> attempts (fire demo_props False
          \<lparr>handle = 1, kind = Timeout, delay = 3000, callback = Reconnect\<rparr> demo_torn)
       = [wsUrl demo_props, wsUrl demo_props]
   \<and> map readyState (sockets (fire demo_props False
          \<lparr>handle = 1, kind = Timeout, delay = 3000, callback = Reconnect\<rparr> demo_torn))
       = [CLOSED, CONNECTING]"
proof -
  have c: "readyState (sockets demo_connecting ! 0) = CONNECTING"
    by (simp add: demo_connecting_def connect_def demo_props_def init_hook_def new_socket_def
        Let_def)
  have a1: "closes (sockets demo_unmounted ! 0) = [(1000, ''Component unmounting'')]"
    and a2: "timers demo_unmounted = []"
    by (simp_all add: demo_unmounted_eq)
  have a3: "timers demo_torn = [torn_timer]"
    by (simp add: demo_torn_eq)
  have t: "\<lparr>handle = 1, kind = Timeout, delay = 3000, callback = Reconnect\<rparr> = torn_timer"
    by (simp add: torn_timer_def)
  have a4: "attempts (fire demo_props False torn_timer demo_torn) = [wsUrl demo_props, wsUrl demo_props]"
    and a5: "map readyState (sockets (fire demo_props False torn_timer demo_torn)) = [CLOSED, CONNECTING]"
    by (simp_all add: demo_torn_fired_eq new_socket_def)
  show ?thesis
    unfolding t using c demo_unmounted_def a1 a2 demo_torn_def a3 a4 a5 by (intro conjI)
qed




subsection \<open>An open socket keeps its heartbeat\<close>

lemma more_keeps [simp]:
  "next_handle (onmessage p parsed h) = next_handle h"
  "next_handle (sendMessage d h) = next_handle h"
  by (simp_all add: onmessage_def sendMessage_def send_json_def Let_def split: sum.splits option.splits)











lemma heartbeat_ok_cong:
  assumes "timers k = timers h" "sockets k = sockets h" "next_handle k = next_handle h"
    "reconnectTimeoutRef k = reconnectTimeoutRef h"
  shows "heartbeat_ok k = heartbeat_ok h"
  by (simp add: heartbeat_ok_def assms)













subsection \<open>Heartbeat\<close>



subsection \<open>The connection URL\<close>

text \<open>
  Claim C8. When \<open>agentId\<close> and \<open>sector\<close> are both given, \<open>connect\<close> calls
  \<open>new WebSocket\<close> once, with the URL \<open>ws(s)://host:8002/ws/{agent_id}/{sector}\<close>
  built from the hook's own \<open>agentId\<close> and \<open>sector\<close>, the scheme \<open>wss:\<close> when
  the page's protocol is \<open>https:\<close> and \<open>ws:\<close> otherwise; unless the constructor
  throws, the hook then has one more socket, connecting to exactly that URL, and
  \<open>wsRef\<close> refers to it. When \<open>agentId\<close> or \<open>sector\<close> is missing (\<open>undefined\<close>,
  \<open>null\<close> or another falsy value) \<open>connect\<close> makes no attempt, creates no socket
  and changes nothing.
\<close>

theorem connect_url:
  "(truthy (agentId p) \<and> truthy (sector p) \<longrightarrow>
      attempts (connect p throws h) =
        attempts h @ [(if location_protocol p = ''https:'' then ''wss:'' else ''ws:'') @ ''//''
          @ location_hostname p @ '':8002/ws/'' @ js_String (agentId p) @ ''/''
          @ js_String (sector p)]
      \<and> sockets (connect p throws h) =
        sockets h @ (if throws then []
          else [\<lparr>ws_url = (if location_protocol p = ''https:'' then ''wss:'' else ''ws:'') @ ''//''
                   @ location_hostname p @ '':8002/ws/'' @ js_String (agentId p) @ ''/''
                   @ js_String (sector p),
                 readyState = CONNECTING, pingInterval = None, sent = [], closes = []\<rparr>])
      \<and> wsRef (connect p throws h) = (if throws then wsRef h else Some (length (sockets h))))
   \<and> (\<not> truthy (agentId p) \<or> \<not> truthy (sector p) \<longrightarrow> connect p throws h = h)"
  by (auto simp: connect_def wsUrl_def new_socket_def Let_def)

theorem connect_url_witness:
  "attempts (connect demo_props False init_hook) = [''wss://crm.example:8002/ws/7/comercial'']
   \<and> sockets (connect demo_props False init_hook)
        = [\<lparr>ws_url = ''wss://crm.example:8002/ws/7/comercial'', readyState = CONNECTING,
          pingInterval = None, sent = [], closes = []\<rparr>]
   \<and> wsRef (connect demo_props False init_hook) = Some 0
   \<and> sockets (connect (demo_props\<lparr>location_protocol := ''http:''\<rparr>) False init_hook)
        = [\<lparr>ws_url = ''ws://crm.example:8002/ws/7/comercial'', readyState = CONNECTING,
          pingInterval = None, sent = [], closes = []\<rparr>]
   \<and> sockets (connect demo_props True init_hook) = []
   \<and> connect (demo_props\<lparr>agentId := Undefined\<rparr>) False init_hook = init_hook
   \<and> connect (demo_props\<lparr>sector := Null\<rparr>) False init_hook = init_hook
   \<and> connect (demo_props\<lparr>agentId := JNum 0\<rparr>) False init_hook = init_hook"
  using connect_url [of demo_props False init_hook]
    connect_url [of "demo_props\<lparr>location_protocol := ''http:''\<rparr>" False init_hook]
    connect_url [of demo_props True init_hook]
    connect_url [of "demo_props\<lparr>agentId := Undefined\<rparr>" False init_hook]
    connect_url [of "demo_props\<lparr>sector := Null\<rparr>" False init_hook]
    connect_url [of "demo_props\<lparr>agentId := JNum 0\<rparr>" False init_hook]
  by (simp add: demo_props_def init_hook_def string_small)

text \<open>An agent id of \<open>10^21\<close> is written into the URL the way \<open>String\<close> writes it.\<close>

lemma wsUrl_large_id:
  "wsUrl (demo_props\<lparr>agentId := JNum 1000000000000000000000\<rparr>)
     = ''wss://crm.example:8002/ws/1e+21/comercial''"
  using string_1e21 by (simp add: wsUrl_def demo_props_def Let_def)
section \<open>Properties of the request surface\<close>

lemma interceptor_without_token:
  assumes "ls ''token'' = None"
  shows "request_interceptor ls config = config"
  using assms by (simp add: request_interceptor_def)

lemma prepare_without_token:
  assumes "ls ''token'' = None" "hs ''Authorization'' = None"
  shows "req_headers (prepare ls m u ps b hs) ''Authorization'' = None"
  using assms by (simp add: prepare_def interceptor_without_token map_add_def)

text \<open>
  Claim C9. \<open>authService.logout\<close> always resolves, whatever the server does with the
  logout request (a failure is caught and ignored), and leaves \<open>localStorage\<close> without
  the \<open>token\<close> and \<open>agent\<close> entries and otherwise as it was. With that storage, a
  request of the api instance whose own headers name no \<open>Authorization\<close> reaches the
  server without one.
\<close>

theorem logout_clears_credentials:
  "auth_logout ls srv = Inr (ls(''token'' := None, ''agent'' := None))
   \<and> (hs ''Authorization'' = None \<longrightarrow>
         req_headers (prepare (ls(''token'' := None, ''agent'' := None)) m u ps b hs)
           ''Authorization'' = None)"
proof (intro conjI impI)
  show "auth_logout ls srv = Inr (ls(''token'' := None, ''agent'' := None))"
    by (simp add: auth_logout_def Let_def split: sum.splits)
  show "req_headers (prepare (ls(''token'' := None, ''agent'' := None)) m u ps b hs)
           ''Authorization'' = None" if "hs ''Authorization'' = None"
    using that by (simp add: prepare_without_token)
qed

theorem logout_clears_credentials_witness:
  "req_headers (prepare demo_storage GET ''/api/conversations'' (JObj []) Undefined Map.empty)
      ''Authorization'' = Some ''Bearer abc''
   \<and> auth_logout demo_storage failing_server
        = Inr (demo_storage(''token'' := None, ''agent'' := None))
   \<and> (demo_storage(''token'' := None, ''agent'' := None)) ''theme'' = Some ''dark''
   \<and> req_headers (prepare (demo_storage(''token'' := None, ''agent'' := None)) GET
        ''/api/conversations'' (JObj []) Undefined Map.empty) ''Authorization'' = None"
proof -
  have a: "req_headers (prepare demo_storage GET ''/api/conversations'' (JObj []) Undefined Map.empty)
      ''Authorization'' = Some ''Bearer abc''"
    by (simp add: prepare_def request_interceptor_def demo_storage_def)
  have b: "(demo_storage(''token'' := None, ''agent'' := None)) ''theme'' = Some ''dark''"
    by (simp add: demo_storage_def)
  show ?thesis
    using logout_clears_credentials [of demo_storage failing_server Map.empty GET
        "''/api/conversations''" "JObj []" Undefined] a b
    by simp
qed

text \<open>
  Claim C10. \<open>messagesService.getByConversation\<close>, \<open>conversationsService.getStats\<close>,
  \<open>agentsService.list\<close> and \<open>agentsService.getOnline\<close> always resolve; when the
  request fails they resolve to \<open>{messages: []}\<close>, \<open>{by_status: {}, by_sector: {},
  queues: {}}\<close>, \<open>{agents: []}\<close> and \<open>{agents: []}\<close>.
\<close>

theorem read_services_never_reject:
  "(\<exists>v. messages_getByConversation ls srv cid ps = Inr v)
   \<and> (\<exists>v. conversations_getStats ls srv = Inr v)
   \<and> (\<exists>v. agents_list ls srv sec = Inr v)
   \<and> (\<exists>v. agents_getOnline ls srv = Inr v)
   \<and> (api_get ls srv (''/api/messages/conversation/'' @ js_String cid)
          (if ps = Undefined then JObj [] else ps) = Inl e
        \<longrightarrow> messages_getByConversation ls srv cid ps = Inr (JObj [(''messages'', JArr [])]))
   \<and> (api_get ls srv ''/api/conversations/stats/summary'' Undefined = Inl e
        \<longrightarrow> conversations_getStats ls srv =
              Inr (JObj [(''by_status'', JObj []), (''by_sector'', JObj []), (''queues'', JObj [])]))
   \<and> (api_get ls srv ''/api/agents'' (if truthy sec then JObj [(''sector'', sec)] else JObj []) = Inl e
        \<longrightarrow> agents_list ls srv sec = Inr (JObj [(''agents'', JArr [])]))
   \<and> (api_get ls srv ''/api/agents/online'' Undefined = Inl e
        \<longrightarrow> agents_getOnline ls srv = Inr (JObj [(''agents'', JArr [])]))"
  by (simp add: messages_getByConversation_def conversations_getStats_def agents_list_def
      agents_getOnline_def data_or_def messages_default_def stats_default_def agents_default_def
      split: sum.splits)

theorem read_services_never_reject_witness:
  "api_get demo_storage failing_server ''/api/agents/online'' Undefined = Inl RequestFailed
   \<and> conversations_list demo_storage failing_server Undefined = Inl RequestFailed
   \<and> messages_getByConversation demo_storage failing_server (JNum 5) Undefined
        = Inr (JObj [(''messages'', JArr [])])
   \<and> conversations_getStats demo_storage failing_server
        = Inr (JObj [(''by_status'', JObj []), (''by_sector'', JObj []), (''queues'', JObj [])])
   \<and> agents_list demo_storage failing_server (JStr ''comercial'') = Inr (JObj [(''agents'', JArr [])])
   \<and> agents_getOnline demo_storage failing_server = Inr (JObj [(''agents'', JArr [])])"
proof -
  have f: "api_get demo_storage failing_server u ps = Inl RequestFailed" for u ps
    by (simp add: api_get_def failing_server_def response_interceptor_def)
  have "conversations_list demo_storage failing_server Undefined = Inl RequestFailed"
    by (simp add: conversations_list_def data_of_def f)
  then show ?thesis
    using read_services_never_reject [of demo_storage failing_server "JNum 5" Undefined
        "JStr ''comercial''" RequestFailed] f
    by simp
qed

section \<open>Properties of the Dashboard\<close>

lemma get_prop_obj: "v \<notin> {Undefined, Null} \<Longrightarrow> get_prop v k = Inr (opt_prop v k)"
  by (cases v) simp_all




text \<open>Past \<open>2^53\<close> the total is the rounded sum.\<close>

lemma totalQueue_rounds:
  "totalQueue (sizes_obj [(''a'', 9007199254740992), (''b'', 1)]) = Inr (JNum 9007199254740992)"
  by (simp add: totalQueue_def sizes_obj_def js_add_def norm_num_def overflows_def round53_def
      ndigits.simps Let_def)






lemma some_same_id_eq:
  assumes "\<forall>m\<in>set ms. m \<notin> {Undefined, Null}" "map_of kvs ''message'' = Some msg"
    "msg \<notin> {Undefined, Null}"
  shows "some_same_id ms (JObj kvs) =
     Inr (\<exists>m\<in>set ms. strict_eq (opt_prop m ''id'') (opt_prop msg ''id''))"
  using assms
proof (induction ms)
  case Nil
  then show ?case by simp
next
  case (Cons a ms)
  then have "get_prop a ''id'' = Inr (opt_prop a ''id'')"
    by (simp add: get_prop_obj)
  moreover have "get_prop msg ''id'' = Inr (opt_prop msg ''id'')"
    using Cons.prems(3) by (simp add: get_prop_obj)
  ultimately show ?case
    using Cons by simp
qed

lemma add_message_eq:
  assumes "\<forall>m\<in>set ms. m \<notin> {Undefined, Null}" "map_of kvs ''message'' = Some msg"
    "msg \<notin> {Undefined, Null}"
  shows "add_message (JObj kvs) (JArr ms) =
     Inr (if \<exists>m\<in>set ms. strict_eq (opt_prop m ''id'') (opt_prop msg ''id'')
          then JArr ms else JArr (ms @ [msg]))"
  using assms(2) by (simp add: add_message_def some_same_id_eq [OF assms])

text \<open>
  What the \<open>new_message\<close> branch does with an event whose message is an object,
  received while the list holds objects: the message is appended at the tail of the
  list, the rest in its order, when the guard
  \<open>currentConvId && String(currentConvId) === String(messageConvId)\<close> holds and no
  listed message has the same id (\<open>===\<close>); otherwise the list is left as it is.
  Either way the conversation list is reloaded.
\<close>

lemma new_message_branch:
  assumes "map_of kvs ''type'' = Some (JStr ''new_message'')"
    and "map_of kvs ''message'' = Some msg" and "msg \<notin> {Undefined, Null}"
    and "messages d = JArr ms" and "\<forall>m\<in>set ms. m \<notin> {Undefined, Null}"
  shows "handleWebSocketMessage (JObj kvs) d =
     Inr (d\<lparr>messages :=
            (if truthy (opt_prop (selectedConversationRef d) ''id'')
                \<and> js_String (opt_prop (selectedConversationRef d) ''id'')
                    = js_String (opt_prop (JObj kvs) ''conversation_id'')
                \<and> \<not> (\<exists>m\<in>set ms. strict_eq (opt_prop m ''id'') (opt_prop msg ''id''))
             then JArr (ms @ [msg]) else JArr ms)\<rparr>,
          [LoadConversations TabAll])"
proof -
  have a: "add_message (JObj kvs) (messages d) =
     Inr (if \<exists>m\<in>set ms. strict_eq (opt_prop m ''id'') (opt_prop msg ''id'')
          then JArr ms else JArr (ms @ [msg]))"
    unfolding assms(4) using assms(5,2,3) by (rule add_message_eq)
  have b: "d\<lparr>messages := JArr ms\<rparr> = d"
    using assms(4) by simp
  show ?thesis
    using assms(1) a b
    by (simp add: handleWebSocketMessage_def setMessages_def Let_def del: opt_prop.simps)
qed

lemma new_message_branch_demo:
  "handleWebSocketMessage (message_event (JNum 5) 9) open_five
     = Inr (open_five\<lparr>messages := JArr [JObj [(''id'', JNum 1), (''content'', JStr ''oi'')],
              JObj [(''id'', JNum 9), (''content'', JStr ''bom dia'')]]\<rparr>,
            [LoadConversations TabAll])
   \<and> handleWebSocketMessage (message_event (JStr ''5'') 9) open_five
     = Inr (open_five\<lparr>messages := JArr [JObj [(''id'', JNum 1), (''content'', JStr ''oi'')],
              JObj [(''id'', JNum 9), (''content'', JStr ''bom dia'')]]\<rparr>,
            [LoadConversations TabAll])
   \<and> handleWebSocketMessage (message_event (JNum 5) 1) open_five
     = Inr (open_five, [LoadConversations TabAll])
   \<and> handleWebSocketMessage (message_event (JNum 6) 9) open_five
     = Inr (open_five, [LoadConversations TabAll])"
proof -
  let ?old = "JObj [(''id'', JNum 1), (''content'', JStr ''oi'')]"
  have m: "messages open_five = JArr [?old]"
    by (simp add: open_five_def init_dashboard_def)
  have s: "\<forall>m\<in>set [?old]. m \<notin> {Undefined, Null}"
    by simp
  have e: "open_five\<lparr>messages := JArr [?old]\<rparr> = open_five"
    using m by simp
  have r: "selectedConversationRef open_five = JObj [(''id'', JNum 5)]"
    by (simp add: open_five_def init_dashboard_def)
  have t: "map_of [(''type'', JStr ''new_message''), (''conversation_id'', c),
             (''message'', JObj [(''id'', JNum i), (''content'', JStr ''bom dia'')])] ''type''
           = Some (JStr ''new_message'')"
      "map_of [(''type'', JStr ''new_message''), (''conversation_id'', c),
             (''message'', JObj [(''id'', JNum i), (''content'', JStr ''bom dia'')])] ''message''
           = Some (JObj [(''id'', JNum i), (''content'', JStr ''bom dia'')])"
      "JObj [(''id'', JNum i), (''content'', JStr ''bom dia'')] \<notin> {Undefined, Null}" for c i
    by simp_all
  show ?thesis
    using new_message_branch [OF t(1) t(2) t(3) m s, of "JNum 5" 9]
      new_message_branch [OF t(1) t(2) t(3) m s, of "JStr ''5''" 9]
      new_message_branch [OF t(1) t(2) t(3) m s, of "JNum 5" 1]
      new_message_branch [OF t(1) t(2) t(3) m s, of "JNum 6" 9]
    by (simp add: message_event_def r e string_small norm_num_safe)
qed

text \<open>
  Claim C7. With the conversation whose id is \<open>0\<close> open and no message listed, a
  \<open>new_message\<close> event for conversation \<open>0\<close> does not reach the list: the two ids
  are equal as strings, but the guard's first operand, meant to tell whether a
  conversation is open, is false for the id \<open>0\<close>. The same event for the open
  conversation \<open>5\<close> is appended.
\<close>

theorem new_message_zero_id_not_appended:
  "opt_prop (selectedConversationRef open_zero) ''id'' = JNum 0
   \<and> js_String (opt_prop (selectedConversationRef open_zero) ''id'')
     = js_String (opt_prop (message_event (JNum 0) 9) ''conversation_id'')
   \<and> messages open_zero = JArr []
   \<and> handleWebSocketMessage (message_event (JNum 0) 9) open_zero
       = Inr (open_zero, [LoadConversations TabAll])
   \<and> handleWebSocketMessage (message_event (JNum 5) 9) open_five
       = Inr (open_five\<lparr>messages := JArr [JObj [(''id'', JNum 1), (''content'', JStr ''oi'')],
              JObj [(''id'', JNum 9), (''content'', JStr ''bom dia'')]]\<rparr>,
            [LoadConversations TabAll])"
  using new_message_branch_demo
  by (simp add: open_zero_def init_dashboard_def message_event_def handleWebSocketMessage_def
      Let_def)
section \<open>The reconnect and the snapshot\<close>

lemma reconnect_fire_eq:
  assumes "reachable p h" "t \<in> set (timers h)" "callback t = Reconnect"
  shows "fire p False t h =
     (clear_timer (handle t) h)\<lparr>attempts := attempts h @ [wsUrl p],
        sockets := sockets h @ [new_socket (wsUrl p)], wsRef := Some (length (sockets h))\<rparr>"
proof -
  have ok: "timers_ok h" using assms(1) by (rule reachable_timers_ok)
  then have "kind t = Timeout" "sockets h \<noteq> []"
    using assms(2,3) by (auto simp: timers_ok_def)
  moreover from this(2) have "truthy (agentId p) \<and> truthy (sector p)"
    using assms(1) by (simp add: reachable_props_given)
  ultimately show ?thesis
    using assms(3) by (simp add: fire_def connect_def Let_def)
qed

lemma loadConversations_keeps_sizes:
  "t \<noteq> TabQueue \<Longrightarrow> queueSizes (loadConversations t ls srv d) = queueSizes d"
  by (simp add: loadConversations_def Let_def split: sum.splits)

text \<open>
  Claim C2, as amended. When the reconnect timer fires, the hook registers again: it
  opens a new socket to the same \<open>/ws/{agent_id}/{sector}\<close> URL and makes it the
  current one (the constructor not throwing). Neither that nor the new socket's opening sends anything on the socket
  or hands anything to the Dashboard, so the reconnect requests no snapshot. The
  conversation list is requested by the Dashboard's own effect, at once and every
  10000 ms, whatever the connection does; a load on a tab other than the queue tab
  leaves the queue counts as they are.
\<close>

theorem reconnect_reregisters_without_snapshot:
  assumes "reachable p h" "t \<in> set (timers h)" "callback t = Reconnect"
  shows "attempts (fire p False t h) = attempts h @ [wsUrl p]
     \<and> wsRef (fire p False t h) = Some (length (sockets h))
     \<and> sockets (fire p False t h) = sockets h @ [new_socket (wsUrl p)]
     \<and> readyState (sockets (socket_open (length (sockets h)) (fire p False t h))
          ! length (sockets h)) = OPEN
     \<and> sent (sockets (socket_open (length (sockets h)) (fire p False t h))
          ! length (sockets h)) = []
     \<and> delivered (socket_open (length (sockets h)) (fire p False t h)) = delivered h
     \<and> conversations_effect tb = [Run (LoadConversations tb), Every 10000 (LoadConversations tb)]
     \<and> (tb \<noteq> TabQueue \<longrightarrow> queueSizes (loadConversations tb ls srv d) = queueSizes d)"
proof -
  note f = reconnect_fire_eq [OF assms]
  have "readyState (sockets (socket_open (length (sockets h)) (fire p False t h))
          ! length (sockets h)) = OPEN"
    by (simp add: f socket_open_def onopen_def set_timer_def upd_socket_def new_socket_def)
  moreover have "sent (sockets (socket_open (length (sockets h)) (fire p False t h))
          ! length (sockets h)) = []"
    by (simp add: f socket_open_def onopen_def set_timer_def upd_socket_def new_socket_def)
  moreover have "delivered (socket_open (length (sockets h)) (fire p False t h)) = delivered h"
    by (simp add: f socket_open_def onopen_def set_timer_def)
  ultimately show ?thesis
    by (simp add: f conversations_effect_def loadConversations_keeps_sizes)
qed

lemma demo_dropped_eq:
  "demo_dropped = \<lparr>wsRef = Some 0, reconnectTimeoutRef = Some 2, isConnected = False,
     lastMessage = Null,
     sockets = [\<lparr>ws_url = wsUrl demo_props, readyState = CLOSED, pingInterval = Some 1,
        sent = [], closes = []\<rparr>],
     timers = [demo_timer], next_handle = 2, attempts = [wsUrl demo_props], delivered = []\<rparr>"
  by (simp add: demo_dropped_def demo_timer_def demo_hook_eq socket_close_def onclose_eq Let_def
      upd_socket_def clear_ping_def clear_if_set_def clear_timer_def numeral_2_eq_2)

lemma reachable_demo_dropped: "reachable demo_props demo_dropped"
  unfolding demo_dropped_def
  by (rule r_close [OF reachable_demo_hook]) (simp_all add: demo_hook_eq)

lemma demo_reconnected_eq:
  "demo_reconnected = \<lparr>wsRef = Some 1, reconnectTimeoutRef = Some 2, isConnected = True,
     lastMessage = Null,
     sockets = [\<lparr>ws_url = wsUrl demo_props, readyState = CLOSED, pingInterval = Some 1,
        sent = [], closes = []\<rparr>,
       \<lparr>ws_url = wsUrl demo_props, readyState = OPEN, pingInterval = Some 3,
        sent = [], closes = []\<rparr>],
     timers = [\<lparr>handle = 3, kind = Interval, delay = 30000, callback = Ping 1\<rparr>],
     next_handle = 3, attempts = [wsUrl demo_props, wsUrl demo_props], delivered = []\<rparr>"
  by (simp add: demo_reconnected_def demo_dropped_eq demo_timer_def fire_def connect_def
      demo_props_def socket_open_def onopen_def set_timer_def upd_socket_def new_socket_def
      clear_timer_def Let_def numeral_3_eq_3 numeral_2_eq_2)

lemma demo_fired_eq:
  "fire demo_props False demo_timer demo_dropped =
     \<lparr>wsRef = Some 1, reconnectTimeoutRef = Some 2, isConnected = False, lastMessage = Null,
     sockets = [\<lparr>ws_url = wsUrl demo_props, readyState = CLOSED, pingInterval = Some 1,
        sent = [], closes = []\<rparr>, new_socket (wsUrl demo_props)],
     timers = [], next_handle = 2, attempts = [wsUrl demo_props, wsUrl demo_props],
     delivered = []\<rparr>"
  by (simp add: demo_dropped_eq demo_timer_def fire_def connect_def demo_props_def
      clear_timer_def Let_def)

lemma reachable_demo_reconnected: "reachable demo_props demo_reconnected"
proof -
  have "reachable demo_props (fire demo_props False demo_timer demo_dropped)"
    using reachable_demo_dropped by (rule r_timer) (simp add: demo_dropped_eq)
  then show ?thesis
    unfolding demo_reconnected_def
    by (rule r_open) (simp_all add: demo_fired_eq new_socket_def)
qed

theorem reconnect_reregisters_without_snapshot_witness:
  "reachable demo_props demo_dropped \<and> demo_timer \<in> set (timers demo_dropped)
   \<and> callback demo_timer = Reconnect
   \<and> attempts (fire demo_props False demo_timer demo_dropped)
        = [wsUrl demo_props, wsUrl demo_props]
   \<and> readyState (sockets demo_reconnected ! 1) = OPEN
   \<and> ws_url (sockets demo_reconnected ! 1) = wsUrl demo_props
   \<and> delivered demo_reconnected = []
   \<and> queueSizes (loadConversations TabAll demo_storage (list_server []) init_dashboard)
        = queueSizes init_dashboard"
proof -
  have a: "demo_timer \<in> set (timers demo_dropped)" "callback demo_timer = Reconnect"
    by (simp_all add: demo_dropped_eq) (simp add: demo_timer_def)
  have b: "readyState (sockets demo_reconnected ! 1) = OPEN"
    "ws_url (sockets demo_reconnected ! 1) = wsUrl demo_props" "delivered demo_reconnected = []"
    by (simp_all add: demo_reconnected_eq)
  show ?thesis
    using reconnect_reregisters_without_snapshot [OF reachable_demo_dropped a, of TabAll
        demo_storage "list_server []" init_dashboard] reachable_demo_dropped a b
    by (simp add: demo_dropped_eq)
qed

text \<open>
  The claim as first stated fails on the run of agent 7: the socket drops with code
  1006, the reconnect fires and the new socket opens, and the Dashboard has been handed
  no event and asked for nothing.
\<close>

theorem reconnect_no_snapshot_counterexample:
  "reachable demo_props demo_reconnected
   \<and> readyState (sockets demo_dropped ! 0) = CLOSED
   \<and> readyState (sockets demo_reconnected ! 1) = OPEN
   \<and> delivered demo_reconnected = []
   \<and> sent (sockets demo_reconnected ! 1) = []
   \<and> deliver_all (delivered demo_reconnected) init_dashboard = (init_dashboard, [])"
  using reachable_demo_reconnected by (simp add: demo_reconnected_eq demo_dropped_eq)

section \<open>Properties of the dispatcher\<close>

lemma claim_wins:
  assumes "convs st cid = Some c" "conv_status c = waiting_queue"
    "cid \<in> set (queues st (conv_sector c))" "may_claim a c"
  shows "claim a cid st =
     (Inr (c\<lparr>conv_status := in_progress, assigned_agent := Some (agent_id a)\<rparr>),
      st\<lparr>convs := (convs st)(cid \<mapsto> c\<lparr>conv_status := in_progress,
                                        assigned_agent := Some (agent_id a)\<rparr>),
         queues := (queues st)(conv_sector c := removeAll cid (queues st (conv_sector c)))\<rparr>)"
  using assms by (simp add: claim_def Let_def)

lemma claim_loses:
  assumes "convs st cid = Some c" "conv_status c = in_progress" "may_claim a c"
  shows "claim a cid st = (Inl AlreadyClaimed, st)"
  using assms by (simp add: claim_def)

lemma claim_all_lose:
  assumes "convs st cid = Some c" "conv_status c = in_progress" "\<forall>a\<in>set as. may_claim a c"
  shows "claim_all as cid st = (replicate (length as) (Inl AlreadyClaimed), st)"
  using assms by (induction as) (simp_all add: claim_loses)

text \<open>
  Claim C4, as amended. For a conversation that is waiting in its sector's queue and N
  claim attempts on it by different agents, each of them entitled to claim it (an agent
  of the conversation's sector, or any agent when the conversation is in the escalation
  sector), in whatever order the attempts are serialised: the first attempt returns the
  conversation, now \<open>in_progress\<close> and assigned to that agent; each of the other
  N - 1 fails with \<open>AlreadyClaimed\<close>; and the conversation ends \<open>in_progress\<close>,
  assigned to the winner, and out of the queue.
\<close>

theorem one_claim_wins:
  assumes "convs st cid = Some c" and "conv_status c = waiting_queue"
    and "cid \<in> set (queues st (conv_sector c))"
    and "\<forall>b\<in>set (a # as). may_claim b c" and "distinct (map agent_id (a # as))"
  shows "fst (claim_all (a # as) cid st) =
       Inr (c\<lparr>conv_status := in_progress, assigned_agent := Some (agent_id a)\<rparr>)
         # replicate (length as) (Inl AlreadyClaimed)
     \<and> convs (snd (claim_all (a # as) cid st)) cid =
         Some (c\<lparr>conv_status := in_progress, assigned_agent := Some (agent_id a)\<rparr>)
     \<and> cid \<notin> set (queues (snd (claim_all (a # as) cid st)) (conv_sector c))"
proof -
  let ?c1 = "c\<lparr>conv_status := in_progress, assigned_agent := Some (agent_id a)\<rparr>"
  let ?st1 = "st\<lparr>convs := (convs st)(cid \<mapsto> ?c1),
         queues := (queues st)(conv_sector c := removeAll cid (queues st (conv_sector c)))\<rparr>"
  have w: "claim a cid st = (Inr ?c1, ?st1)"
    using assms(1,2,3) assms(4) by (simp add: claim_wins)
  have "\<forall>b\<in>set as. may_claim b ?c1"
    using assms(4) by (auto simp: may_claim_def)
  then have l: "claim_all as cid ?st1 = (replicate (length as) (Inl AlreadyClaimed), ?st1)"
    by (intro claim_all_lose [where c = ?c1]) simp_all
  show ?thesis
    by (simp add: w l)
qed

lemma demo_claims:
  "convs demo_dispatcher 4 = Some demo_conversation"
  "conv_status demo_conversation = waiting_queue"
  "4 \<in> set (queues demo_dispatcher (conv_sector demo_conversation))"
  "\<forall>b\<in>set [agent_b, agent_a, agent_c]. may_claim b demo_conversation"
  "distinct (map agent_id [agent_b, agent_a, agent_c])"
  by (simp_all add: demo_dispatcher_def demo_conversation_def may_claim_def agent_a_def
      agent_b_def agent_c_def)

theorem one_claim_wins_witness:
  "convs demo_dispatcher 4 = Some demo_conversation
   \<and> fst (claim_all [agent_b, agent_a, agent_c] 4 demo_dispatcher) =
       [Inr \<lparr>conv_sector = comercial, conv_status = in_progress, assigned_agent = Some 2\<rparr>,
        Inl AlreadyClaimed, Inl AlreadyClaimed]
   \<and> convs (snd (claim_all [agent_b, agent_a, agent_c] 4 demo_dispatcher)) 4 =
       Some \<lparr>conv_sector = comercial, conv_status = in_progress, assigned_agent = Some 2\<rparr>
   \<and> queues (snd (claim_all [agent_b, agent_a, agent_c] 4 demo_dispatcher)) comercial = []"
proof -
  have "queues (snd (claim_all [agent_b, agent_a, agent_c] 4 demo_dispatcher)) comercial = []"
    by (simp add: claim_def demo_dispatcher_def demo_conversation_def may_claim_def agent_a_def
        agent_b_def agent_c_def Let_def)
  then show ?thesis
    using one_claim_wins [OF demo_claims]
    by (simp add: demo_claims(1) demo_conversation_def agent_b_def numeral_2_eq_2)
qed

text \<open>
  The claim as first stated, for any N different agents, fails when one of them is of
  another sector: of three attempts on a waiting \<open>comercial\<close> conversation, the one
  by an agent of \<open>rh\<close> fails with \<open>PermissionDenied\<close>, whether it comes after the
  winner or before, so only one of the attempts fails with \<open>AlreadyClaimed\<close>, not two.
\<close>

theorem claim_other_sector_counterexample:
  "convs demo_dispatcher 4 = Some demo_conversation
   \<and> conv_status demo_conversation = waiting_queue
   \<and> distinct (map agent_id [agent_b, agent_d, agent_c])
   \<and> fst (claim_all [agent_b, agent_d, agent_c] 4 demo_dispatcher) =
       [Inr \<lparr>conv_sector = comercial, conv_status = in_progress, assigned_agent = Some 2\<rparr>,
        Inl PermissionDenied, Inl AlreadyClaimed]
   \<and> fst (claim_all [agent_d, agent_b, agent_c] 4 demo_dispatcher) =
       [Inl PermissionDenied,
        Inr \<lparr>conv_sector = comercial, conv_status = in_progress, assigned_agent = Some 2\<rparr>,
        Inl AlreadyClaimed]
   \<and> length (filter (\<lambda>r. r = Inl AlreadyClaimed)
         (fst (claim_all [agent_b, agent_d, agent_c] 4 demo_dispatcher))) = 1"
  by (simp add: claim_def demo_dispatcher_def demo_conversation_def may_claim_def agent_b_def
      agent_c_def agent_d_def Let_def)

text \<open>
  Claim C5. For a conversation that is \<open>in_progress\<close> and assigned: a resolve request
  of any other agent fails with \<open>PermissionDenied\<close> and changes nothing, so the
  conversation stays \<open>in_progress\<close>; the assigned agent's request, and only that,
  makes it \<open>resolved\<close>.
\<close>

theorem resolve_only_by_assigned:
  assumes "convs st cid = Some c" and "conv_status c = in_progress"
    and "assigned_agent c = Some x"
  shows "resolve a cid st =
     (if agent_id a = x
      then (Inr (c\<lparr>conv_status := resolved, assigned_agent := None\<rparr>),
            st\<lparr>convs := (convs st)(cid \<mapsto> c\<lparr>conv_status := resolved, assigned_agent := None\<rparr>)\<rparr>)
      else (Inl PermissionDenied, st))"
  using assms by (auto simp: resolve_def Let_def)

theorem resolve_only_by_assigned_witness:
  "convs (snd (claim agent_a 4 demo_dispatcher)) 4 =
       Some \<lparr>conv_sector = comercial, conv_status = in_progress, assigned_agent = Some 1\<rparr>
   \<and> resolve agent_b 4 (snd (claim agent_a 4 demo_dispatcher)) =
       (Inl PermissionDenied, snd (claim agent_a 4 demo_dispatcher))
   \<and> fst (resolve agent_a 4 (snd (claim agent_a 4 demo_dispatcher))) =
       Inr \<lparr>conv_sector = comercial, conv_status = resolved, assigned_agent = None\<rparr>"
proof -
  let ?st = "snd (claim agent_a 4 demo_dispatcher)"
  let ?c = "\<lparr>conv_sector = comercial, conv_status = in_progress, assigned_agent = Some 1\<rparr>"
  have c: "convs ?st 4 = Some ?c"
    by (simp add: claim_def demo_dispatcher_def demo_conversation_def may_claim_def agent_a_def
        Let_def)
  have s: "conv_status ?c = in_progress" "assigned_agent ?c = Some 1"
    by simp_all
  show ?thesis
    using resolve_only_by_assigned [OF c s, of agent_b] resolve_only_by_assigned [OF c s, of agent_a] c
    by (simp add: agent_a_def agent_b_def)
qed


end
